theory Spec2Isabelle
  imports Main "HOL-Library.Multiset"
begin

section \<open>Data model: the game\_rooms and players tables\<close>

text \<open>
  Card names are text values; the stored procedures only ever compare them for equality.
  Row identifiers (uuid columns) are opaque and modelled as natural numbers.
\<close>

type_synonym card = string
type_synonym uuid = nat

text \<open>The values of \<open>game_rooms.status\<close> (the union type \<open>GameRoom['status']\<close>).\<close>

datatype status =
    Waiting | Checkin | Voting | Voting_result | Resonance_initial | Playing
  | Exchange | Resonance_final | Gift_exchange | Completed | Complete

text \<open>\<open>players.role\<close>: CHECK (role IN ('player', 'spectator')).\<close>

datatype role = Player | Spectator

text \<open>\<open>game_rooms.final_phase_step\<close>.\<close>

datatype final_step = Sharing | Gifting | Reflection

text \<open>
  One element of \<open>players.final_gifts_received\<close>. Entries written by \<open>give_final_gift\<close>
  carry a \<open>card_text\<close>; entries written by \<open>give_final_message_gift\<close> carry a
  \<open>message\<close> instead.
\<close>

record gift =
  from_player_id :: uuid
  from_player_name :: string
  card_text :: "card option"
  message :: "string option"

text \<open>
  A row of \<open>players\<close>; \<open>pid\<close> is the primary key column \<open>id\<close>. The jsonb column
  \<open>hand\<close> is an array of card names.
\<close>

record player =
  pid :: uuid
  room_id :: uuid
  player_number :: int
  role :: role
  hand :: "card list"
  ready_for_next_phase :: bool
  has_given_final_gift :: bool
  final_reflection_text :: string
  final_gifts_received :: "gift list"

text \<open>
  A row of \<open>game_rooms\<close>; \<open>rid\<close> is the primary key column \<open>id\<close>. The jsonb columns
  \<open>deck\<close> and \<open>discard_pile\<close> are arrays of card names; the integer columns are
  PostgreSQL \<open>integer\<close> (32 bit, overflow raises).
\<close>

record game_room =
  rid :: uuid
  status :: status
  current_turn_player :: int
  current_exchange_turn :: int
  round_number :: int
  exchange_completed :: bool
  final_phase_turn :: int
  final_phase_step :: final_step
  deck :: "card list"
  discard_pile :: "card list"

text \<open>The store: both tables as lists of rows.\<close>

record store =
  game_rooms :: "game_room list"
  players :: "player list"

section \<open>SQL building blocks\<close>

text \<open>\<open>SELECT * INTO v_room FROM game_rooms WHERE id = p_room_id\<close>; None is NOT FOUND.\<close>

definition select_room :: "store \<Rightarrow> uuid \<Rightarrow> game_room option" where
  "select_room s p_room_id = find (\<lambda>r. rid r = p_room_id) (game_rooms s)"

text \<open>\<open>SELECT * INTO v_player FROM players WHERE id = p_player_id AND room_id = p_room_id\<close>.\<close>

definition select_player :: "store \<Rightarrow> uuid \<Rightarrow> uuid \<Rightarrow> player option" where
  "select_player s p_player_id p_room_id =
     find (\<lambda>p. pid p = p_player_id \<and> room_id p = p_room_id) (players s)"

text \<open>\<open>UPDATE players SET ... WHERE id = p_player_id\<close>.\<close>

definition update_players :: "store \<Rightarrow> uuid \<Rightarrow> (player \<Rightarrow> player) \<Rightarrow> store" where
  "update_players s p_player_id f =
     s\<lparr>players := map (\<lambda>p. if pid p = p_player_id then f p else p) (players s)\<rparr>"

text \<open>\<open>UPDATE game_rooms SET ... WHERE id = p_room_id\<close>.\<close>

definition update_game_rooms :: "store \<Rightarrow> uuid \<Rightarrow> (game_room \<Rightarrow> game_room) \<Rightarrow> store" where
  "update_game_rooms s p_room_id f =
     s\<lparr>game_rooms := map (\<lambda>r. if rid r = p_room_id then f r else r) (game_rooms s)\<rparr>"

text \<open>
  The columns of the two tables after all migrations (CREATE TABLE and every
  ALTER TABLE ... ADD COLUMN or RENAME COLUMN; \<open>final_phase_turn\<close> is the name
  \<open>current_final_turn\<close> is renamed to). \<open>game_rooms\<close> has an \<open>updated_at\<close> column;
  \<open>players\<close> has none, in agreement with the row types \<open>GameRoom\<close> and \<open>Player\<close> of
  lib/supabase.ts.
\<close>

definition players_columns :: "string list" where
  "players_columns =
     [''id'', ''room_id'', ''player_number'', ''name'', ''hand'', ''is_connected'',
      ''created_at'', ''role'', ''ready_for_next_phase'', ''preferred_name'',
      ''current_feeling'', ''has_checked_in'', ''final_gifts_received'',
      ''final_reflection_text'', ''has_given_final_gift'', ''final_resonance_percentage'',
      ''has_shared_final_resonance'', ''final_resonance_text'']"

definition game_rooms_columns :: "string list" where
  "game_rooms_columns =
     [''id'', ''status'', ''purpose_card'', ''current_turn_player'', ''round_number'',
      ''deck'', ''discard_pile'', ''created_at'', ''updated_at'', ''card_options'',
      ''current_exchange_turn'', ''exchange_completed'', ''final_phase_turn'',
      ''final_phase_step'']"

text \<open>
  An UPDATE statement inside a stored procedure, with the columns of its SET clause. A
  column the table does not have makes the statement raise when it is executed (None);
  the procedure's \<open>EXCEPTION WHEN OTHERS\<close> handler then rolls back and returns the
  generic failure.
\<close>

definition sql_update_players ::
  "string list \<Rightarrow> store \<Rightarrow> uuid \<Rightarrow> (player \<Rightarrow> player) \<Rightarrow> store option" where
  "sql_update_players set_columns s p_player_id f =
     (if list_all (\<lambda>c. c \<in> set players_columns) set_columns
      then Some (update_players s p_player_id f) else None)"

definition sql_update_game_rooms ::
  "string list \<Rightarrow> store \<Rightarrow> uuid \<Rightarrow> (game_room \<Rightarrow> game_room) \<Rightarrow> store option" where
  "sql_update_game_rooms set_columns s p_room_id f =
     (if list_all (\<lambda>c. c \<in> set game_rooms_columns) set_columns
      then Some (update_game_rooms s p_room_id f) else None)"

text \<open>\<open>jsonb_array_elements_text(a) WITH ORDINALITY AS t(value, idx)\<close>: idx counts from 1.\<close>

definition with_ordinality :: "'a list \<Rightarrow> ('a \<times> nat) list" where
  "with_ordinality xs = zip xs [1..<Suc (length xs)]"

text \<open>
  The common table expression
  \<open>SELECT idx FROM hand_with_index WHERE value = c LIMIT 1\<close>: at most one index, that of
  the first matching element.
\<close>

definition card_to_remove :: "card \<Rightarrow> card list \<Rightarrow> nat list" where
  "card_to_remove c xs = take 1 (map snd (filter (\<lambda>(v, idx). v = c) (with_ordinality xs)))"

text \<open>
  \<open>SELECT COALESCE(jsonb_agg(value ORDER BY idx), '[]') FROM hand_with_index
     WHERE idx NOT IN (SELECT idx FROM card_to_remove)\<close>.
\<close>

definition remove_card :: "card \<Rightarrow> card list \<Rightarrow> card list" where
  "remove_card c xs =
     map fst (filter (\<lambda>(v, idx). idx \<notin> set (card_to_remove c xs)) (with_ordinality xs))"

text \<open>
  \<open>SELECT jsonb_agg(CASE WHEN idx IN (SELECT idx FROM card_to_remove) THEN new
     ELSE value END ORDER BY idx) FROM hand_with_index\<close>.
\<close>

definition replace_card :: "card \<Rightarrow> card \<Rightarrow> card list \<Rightarrow> card list" where
  "replace_card c new xs =
     map (\<lambda>(v, idx). if idx \<in> set (card_to_remove c xs) then new else v) (with_ordinality xs)"

text \<open>The rows of the tail of an array are numbered one higher than in the tail alone.\<close>

definition shift_row :: "'a \<times> nat \<Rightarrow> 'a \<times> nat" where
  "shift_row = (\<lambda>(v, i). (v, Suc i))"

text \<open>The position (from 0) of the first occurrence of a card in an array.\<close>

definition first_index :: "'a \<Rightarrow> 'a list \<Rightarrow> nat" where
  "first_index c xs = length (takeWhile (\<lambda>x. x \<noteq> c) xs)"

text \<open>PostgreSQL \<open>integer\<close>: a result outside the 32-bit range raises an exception.\<close>

definition int4_ok :: "int \<Rightarrow> bool" where
  "int4_ok x \<longleftrightarrow> - 2147483648 \<le> x \<and> x \<le> 2147483647"

text \<open>PostgreSQL \<open>a % b\<close>: the remainder of the division truncated towards zero.\<close>

definition pg_mod :: "int \<Rightarrow> int \<Rightarrow> int" where
  "pg_mod a b = sgn a * (\<bar>a\<bar> mod \<bar>b\<bar>)"

section \<open>Structured results\<close>

text \<open>
  Every stored procedure returns \<open>{success: false, message: ...}\<close> on a rejection; the
  constructors name the messages. \<open>InternalError\<close> is the result of the
  \<open>EXCEPTION WHEN OTHERS\<close> handler, which also rolls the block's writes back.
\<close>

datatype failure =
    RoomNotFound | PlayerNotFound | EmptyDeck | CardNotInHand
  | HandCardNotFound | BoardCardNotFound
  | HandCardAlreadyOnBoard | BoardCardInOtherHand
  | NotReflectionStep | NotYourTurn
  | InternalError

section \<open>atomic\_draw\_card\<close>

record draw_ok =
  drawn_card :: card
  hand_size :: nat
  deck_remaining :: nat

text \<open>
  Each of the three card procedures ends with \<open>UPDATE players SET hand = v_new_hand,
  updated_at = now()\<close> followed by an \<open>UPDATE game_rooms SET ..., updated_at = now()\<close>,
  inside a block with an \<open>EXCEPTION WHEN OTHERS\<close> handler.
\<close>

definition atomic_draw_card :: "store \<Rightarrow> uuid \<Rightarrow> uuid \<Rightarrow> (failure + draw_ok) \<times> store" where
  "atomic_draw_card s p_room_id p_player_id =
     (case select_room s p_room_id of
        None \<Rightarrow> (Inl RoomNotFound, s)
      | Some v_room \<Rightarrow>
     (case select_player s p_player_id p_room_id of
        None \<Rightarrow> (Inl PlayerNotFound, s)
      | Some v_player \<Rightarrow>
     (case deck v_room of
        [] \<Rightarrow> (Inl EmptyDeck, s)
      | v_drawn_card # _ \<Rightarrow>
          let v_new_deck = map fst (filter (\<lambda>(v, idx). idx > 1) (with_ordinality (deck v_room)));
              v_new_hand = hand v_player @ [v_drawn_card]
          in
          (case sql_update_players [''hand'', ''updated_at''] s p_player_id
                  (\<lambda>p. p\<lparr>hand := v_new_hand\<rparr>) of
             None \<Rightarrow> (Inl InternalError, s)
           | Some s1 \<Rightarrow>
          (case sql_update_game_rooms [''deck'', ''updated_at''] s1 p_room_id
                  (\<lambda>r. r\<lparr>deck := v_new_deck\<rparr>) of
             None \<Rightarrow> (Inl InternalError, s)
           | Some s2 \<Rightarrow>
               (Inr \<lparr>drawn_card = v_drawn_card, hand_size = length v_new_hand,
                     deck_remaining = length v_new_deck\<rparr>, s2))))))"

section \<open>atomic\_discard\_card\<close>

record discard_ok =
  discarded_card :: card
  next_player :: int
  next_round :: int
  new_status :: status

text \<open>
  The checks and the computations all precede the two UPDATE statements, and an exception
  rolls back what the block has written, so every early RETURN and every raised exception
  leaves the store as it was.
\<close>

definition atomic_discard_card ::
  "store \<Rightarrow> uuid \<Rightarrow> uuid \<Rightarrow> card \<Rightarrow> (failure + discard_ok) \<times> store" where
  "atomic_discard_card s p_room_id p_player_id p_card_text =
     (case select_room s p_room_id of
        None \<Rightarrow> (Inl RoomNotFound, s)
      | Some v_room \<Rightarrow>
     (case select_player s p_player_id p_room_id of
        None \<Rightarrow> (Inl PlayerNotFound, s)
      | Some v_player \<Rightarrow>
     (let v_card_found = list_ex (\<lambda>card. card = p_card_text) (hand v_player) in
      if \<not> v_card_found then (Inl CardNotInHand, s)
      else
        let v_new_hand = remove_card p_card_text (hand v_player);
            v_new_discard_pile = discard_pile v_room @ [p_card_text]
        in
        if \<not> int4_ok (current_turn_player v_room + 1) then (Inl InternalError, s)
        else
          let v_next_player = pg_mod (current_turn_player v_room + 1) 4 in
          if v_next_player = 0 \<and> \<not> int4_ok (round_number v_room + 1) then (Inl InternalError, s)
          else
            let v_next_round =
                  (if v_next_player = 0 then round_number v_room + 1 else round_number v_room);
                v_new_status =
                  (if v_next_round = 3 \<and> exchange_completed v_room = False then Exchange
                   else if v_next_round = 5 \<and> exchange_completed v_room = True then Resonance_final
                   else status v_room)
            in
            (case sql_update_players [''hand'', ''updated_at''] s p_player_id
                    (\<lambda>p. p\<lparr>hand := v_new_hand\<rparr>) of
               None \<Rightarrow> (Inl InternalError, s)
             | Some s1 \<Rightarrow>
            (case sql_update_game_rooms
                    [''discard_pile'', ''current_turn_player'', ''round_number'', ''status'',
                     ''current_exchange_turn'', ''updated_at''] s1 p_room_id
                    (\<lambda>r. r\<lparr>discard_pile := v_new_discard_pile,
                            current_turn_player := v_next_player,
                            round_number := v_next_round,
                            status := v_new_status,
                            current_exchange_turn :=
                              (if v_new_status = Exchange then 0 else current_exchange_turn r)\<rparr>) of
               None \<Rightarrow> (Inl InternalError, s)
             | Some s2 \<Rightarrow>
                 (Inr \<lparr>discarded_card = p_card_text, next_player = v_next_player,
                       next_round = v_next_round, new_status = v_new_status\<rparr>, s2))))))"

section \<open>atomic\_exchange\_card\<close>

record exchange_ok =
  hand_card :: card
  board_card :: card

text \<open>
  \<open>SELECT array_agg(p.*) FROM players p
     WHERE p.room_id = p_room_id AND p.id != p_player_id AND p.role = 'player'\<close>.
\<close>

definition other_active_players :: "store \<Rightarrow> uuid \<Rightarrow> uuid \<Rightarrow> player list" where
  "other_active_players s p_room_id p_player_id =
     filter (\<lambda>p. room_id p = p_room_id \<and> pid p \<noteq> p_player_id \<and> role p = Player) (players s)"

text \<open>The FOREACH loop over the other players, which returns at the first hand holding the card.\<close>

fun board_card_in_hands :: "card \<Rightarrow> player list \<Rightarrow> bool" where
  "board_card_in_hands c [] = False"
| "board_card_in_hands c (v_player_rec # rest) =
     (if list_ex (\<lambda>card. card = c) (hand v_player_rec) then True
      else board_card_in_hands c rest)"

definition atomic_exchange_card ::
  "store \<Rightarrow> uuid \<Rightarrow> uuid \<Rightarrow> card \<Rightarrow> card \<Rightarrow> (failure + exchange_ok) \<times> store" where
  "atomic_exchange_card s p_room_id p_player_id p_hand_card_text p_board_card_text =
     (case select_room s p_room_id of
        None \<Rightarrow> (Inl RoomNotFound, s)
      | Some v_room \<Rightarrow>
     (case select_player s p_player_id p_room_id of
        None \<Rightarrow> (Inl PlayerNotFound, s)
      | Some v_player \<Rightarrow>
     (if \<not> list_ex (\<lambda>card. card = p_hand_card_text) (hand v_player)
        then (Inl HandCardNotFound, s)
      else if \<not> list_ex (\<lambda>card. card = p_board_card_text) (discard_pile v_room)
        then (Inl BoardCardNotFound, s)
      else if length (filter (\<lambda>card. card = p_hand_card_text) (discard_pile v_room)) > 0
        then (Inl HandCardAlreadyOnBoard, s)
      else if board_card_in_hands p_board_card_text
                (other_active_players s p_room_id p_player_id)
        then (Inl BoardCardInOtherHand, s)
      else
        let v_new_hand = replace_card p_hand_card_text p_board_card_text (hand v_player);
            v_new_discard_pile =
              replace_card p_board_card_text p_hand_card_text (discard_pile v_room)
        in
        (case sql_update_players [''hand'', ''updated_at''] s p_player_id
                (\<lambda>p. p\<lparr>hand := v_new_hand\<rparr>) of
           None \<Rightarrow> (Inl InternalError, s)
         | Some s1 \<Rightarrow>
        (case sql_update_game_rooms [''discard_pile'', ''updated_at''] s1 p_room_id
                (\<lambda>r. r\<lparr>discard_pile := v_new_discard_pile\<rparr>) of
           None \<Rightarrow> (Inl InternalError, s)
         | Some s2 \<Rightarrow>
             (Inr \<lparr>hand_card = p_hand_card_text, board_card = p_board_card_text\<rparr>, s2))))))"

text \<open>The failure classes of the exchange.\<close>

definition duplicate_card_violation :: "failure \<Rightarrow> bool" where
  "duplicate_card_violation f \<longleftrightarrow> f = HandCardAlreadyOnBoard \<or> f = BoardCardInOtherHand"

section \<open>validate\_card\_uniqueness\<close>

text \<open>
  The jsonb object \<open>v_card_counts\<close> as an association list in the order in which
  PostgreSQL stores (and \<open>jsonb_each_text\<close> returns) the keys of a jsonb object: shorter
  keys first, keys of equal length in bytewise order.
\<close>

type_synonym card_counts = "(card \<times> nat) list"

fun bytes_less :: "string \<Rightarrow> string \<Rightarrow> bool" where
  "bytes_less [] [] = False"
| "bytes_less [] (y # ys) = True"
| "bytes_less (x # xs) [] = False"
| "bytes_less (x # xs) (y # ys) =
     ((of_char x :: nat) < of_char y \<or> (x = y \<and> bytes_less xs ys))"

definition jsonb_key_less :: "string \<Rightarrow> string \<Rightarrow> bool" where
  "jsonb_key_less k1 k2 \<longleftrightarrow>
     length k1 < length k2 \<or> (length k1 = length k2 \<and> bytes_less k1 k2)"

text \<open>\<open>jsonb_set(obj, array[k], v)\<close>: replace the value of key \<open>k\<close>, or add the key.\<close>

fun jsonb_set :: "card_counts \<Rightarrow> card \<Rightarrow> nat \<Rightarrow> card_counts" where
  "jsonb_set [] k v = [(k, v)]"
| "jsonb_set ((k', v') # obj) k v =
     (if k' = k then (k, v) # obj
      else if jsonb_key_less k k' then (k, v) # (k', v') # obj
      else (k', v') # jsonb_set obj k v)"

text \<open>The body of the counting loop \<open>FOREACH v_card IN ARRAY v_all_cards\<close>.\<close>

definition count_card :: "card_counts \<Rightarrow> card \<Rightarrow> card_counts" where
  "count_card v_card_counts v_card =
     (case map_of v_card_counts v_card of
        Some n \<Rightarrow> jsonb_set v_card_counts v_card (n + 1)
      | None \<Rightarrow> jsonb_set v_card_counts v_card 1)"

datatype validate_result =
    ValidateRoomNotFound
  | DuplicatesDetected "card list" card_counts
  | AllUnique "nat option"

text \<open>The \<open>valid\<close> field of the returned object.\<close>

fun valid :: "validate_result \<Rightarrow> bool" where
  "valid ValidateRoomNotFound = False"
| "valid (DuplicatesDetected ds cs) = False"
| "valid (AllUnique n) = True"

text \<open>The \<open>duplicates\<close> field of the returned object (absent unless duplicates were found).\<close>

fun duplicates :: "validate_result \<Rightarrow> card list" where
  "duplicates (DuplicatesDetected ds cs) = ds"
| "duplicates _ = []"

text \<open>
  The cards the function collects: the discard pile, then the hand of every row of
  \<open>players\<close> with \<open>room_id = p_room_id AND role = 'player'\<close>.
\<close>

definition collected_cards :: "store \<Rightarrow> game_room \<Rightarrow> card list" where
  "collected_cards s v_room =
     (let v_players = filter (\<lambda>p. room_id p = rid v_room \<and> role p = Player) (players s)
      in foldl (\<lambda>v_all_cards v_player. v_all_cards @ hand v_player) (discard_pile v_room) v_players)"

definition validate_card_uniqueness :: "store \<Rightarrow> uuid \<Rightarrow> validate_result" where
  "validate_card_uniqueness s p_room_id =
     (case select_room s p_room_id of
        None \<Rightarrow> ValidateRoomNotFound
      | Some v_room \<Rightarrow>
          let v_all_cards = collected_cards s v_room;
              v_card_counts = foldl count_card [] v_all_cards;
              v_duplicates = map fst (filter (\<lambda>(key, value). value > 1) v_card_counts)
          in if length v_duplicates > 0 then DuplicatesDetected v_duplicates v_card_counts
             else AllUnique (if v_all_cards = [] then None else Some (length v_all_cards)))"

section \<open>share\_final\_reflection\<close>

record reflection_ok =
  next_turn :: int
  is_complete :: bool

text \<open>\<open>UPDATE players SET ... WHERE room_id = p_room_id AND role = 'player'\<close>.\<close>

definition update_active_players :: "store \<Rightarrow> uuid \<Rightarrow> (player \<Rightarrow> player) \<Rightarrow> store" where
  "update_active_players s p_room_id f =
     s\<lparr>players := map (\<lambda>p. if room_id p = p_room_id \<and> role p = Player then f p else p)
                     (players s)\<rparr>"

definition share_final_reflection ::
  "store \<Rightarrow> uuid \<Rightarrow> uuid \<Rightarrow> string \<Rightarrow> (failure + reflection_ok) \<times> store" where
  "share_final_reflection s p_room_id p_player_id p_reflection_text =
     (case select_room s p_room_id of
        None \<Rightarrow> (Inl RoomNotFound, s)
      | Some v_room \<Rightarrow>
     (if final_phase_step v_room \<noteq> Reflection then (Inl NotReflectionStep, s)
      else
     (case select_player s p_player_id p_room_id of
        None \<Rightarrow> (Inl PlayerNotFound, s)
      | Some v_player \<Rightarrow>
     (if player_number v_player \<noteq> final_phase_turn v_room then (Inl NotYourTurn, s)
      else
        let s1 = update_players s p_player_id
                   (\<lambda>p. p\<lparr>final_reflection_text := p_reflection_text\<rparr>)
        in
        if \<not> int4_ok (final_phase_turn v_room + 1) then (Inl InternalError, s)
        else
          let v_next_turn = final_phase_turn v_room + 1 in
          if v_next_turn \<ge> 4 then
            let s2 = update_game_rooms s1 p_room_id
                       (\<lambda>r. r\<lparr>status := Complete, final_phase_turn := 0,
                               final_phase_step := Sharing\<rparr>)
            in (Inr \<lparr>next_turn = 0, is_complete = True\<rparr>, s2)
          else
            let s2 = update_game_rooms s1 p_room_id
                       (\<lambda>r. r\<lparr>final_phase_turn := v_next_turn, final_phase_step := Sharing\<rparr>);
                s3 = update_active_players s2 p_room_id (\<lambda>p. p\<lparr>has_given_final_gift := False\<rparr>)
            in (Inr \<lparr>next_turn = v_next_turn, is_complete = (v_next_turn = 0)\<rparr>, s3)))))"

text \<open>The terminal states of a room; both spellings occur in the code.\<close>

definition terminal :: "status \<Rightarrow> bool" where
  "terminal st \<longleftrightarrow> st = Completed \<or> st = Complete"

section \<open>dealInitialHands (gameUtils.ts)\<close>

definition EXPECTED_DECK_SIZE :: nat where
  "EXPECTED_DECK_SIZE = 36"

text \<open>
  \<open>Array.prototype.slice(start, end)\<close> for non-negative arguments: both bounds are
  clamped to the length, and the result is empty when \<open>end \<le> start\<close>.
\<close>

definition slice :: "'a list \<Rightarrow> nat \<Rightarrow> nat \<Rightarrow> 'a list" where
  "slice xs start end = take (end - start) (drop start xs)"

text \<open>\<open>new Set(xs).size\<close>.\<close>

definition set_size :: "'a list \<Rightarrow> nat" where
  "set_size xs = length (remdups xs)"

text \<open>The three \<open>throw new Error(...)\<close> of the function, in source order.\<close>

datatype deal_error = DeckNotUnique36 | DealtOverlapsDeck | BadCountsAfterDeal

record deal =
  hands :: "card list list"
  discardPile :: "card list"
  remainingDeck :: "card list"

definition dealInitialHands :: "card list \<Rightarrow> deal_error + deal" where
  "dealInitialHands d =
     (if length d \<noteq> EXPECTED_DECK_SIZE \<or> set_size d \<noteq> EXPECTED_DECK_SIZE
        then Inl DeckNotUnique36
      else
        let v_hands = map (\<lambda>i. slice d (i * 3) ((i + 1) * 3)) [0..<4];
            v_remainingDeck = drop 12 d;
            dealt = slice d 0 12
        in if list_ex (\<lambda>c. c \<in> set v_remainingDeck) dealt then Inl DealtOverlapsDeck
           else if set_size dealt \<noteq> 12 \<or> length v_remainingDeck \<noteq> 24 then Inl BadCountsAfterDeal
           else Inr \<lparr>hands = v_hands, discardPile = [], remainingDeck = v_remainingDeck\<rparr>)"

section \<open>Vote tally and resolution triggers (PurposeVoting.tsx)\<close>

record vote =
  player_id :: uuid
  card_index :: int

text \<open>
  \<open>voteCounts: Record<number, number>\<close> as an association list in insertion order;
  \<open>voteCounts[k] = (voteCounts[k] || 0) + 1\<close>.
\<close>

type_synonym vote_counts = "(int \<times> nat) list"

definition add_vote :: "vote_counts \<Rightarrow> vote \<Rightarrow> vote_counts" where
  "add_vote voteCounts v =
     (case map_of voteCounts (card_index v) of
        None \<Rightarrow> voteCounts @ [(card_index v, 1)]
      | Some n \<Rightarrow> map (\<lambda>(k, c). if k = card_index v then (k, n + 1) else (k, c)) voteCounts)"

text \<open>
  \<open>Object.entries\<close> lists the keys that are array indices (integers from 0 to
  \<open>2^32 - 2\<close>) first, in ascending numeric order, and the remaining keys after them in
  insertion order.
\<close>

definition array_index_key :: "int \<Rightarrow> bool" where
  "array_index_key k \<longleftrightarrow> 0 \<le> k \<and> k < 4294967295"

definition Object_entries :: "vote_counts \<Rightarrow> vote_counts" where
  "Object_entries obj =
     sort_key fst (filter (\<lambda>(k, c). array_index_key k) obj)
     @ filter (\<lambda>(k, c). \<not> array_index_key k) obj"

text \<open>The callback of \<open>voteEntries.forEach\<close>, on the pair (maxVotes, winningCardIndex).\<close>

fun consider_entry :: "nat \<times> int option \<Rightarrow> int \<times> nat \<Rightarrow> nat \<times> int option" where
  "consider_entry (maxVotes, None) (cardIndex, cnt) = (cnt, Some cardIndex)"
| "consider_entry (maxVotes, Some winningCardIndex) (cardIndex, cnt) =
     (if cnt > maxVotes \<or> (cnt = maxVotes \<and> cardIndex < winningCardIndex)
      then (cnt, Some cardIndex) else (maxVotes, Some winningCardIndex))"

text \<open>
  The tally of \<open>handleAutoDecision\<close>: the winning card index for the votes and the
  number of card options.
\<close>

definition winningCardIndex :: "vote list \<Rightarrow> nat \<Rightarrow> int" where
  "winningCardIndex votes n_options =
     (let voteCounts = foldl add_vote [] votes;
          voteEntries = Object_entries voteCounts;
          w = (if voteEntries = [] then Some 0
               else snd (foldl consider_entry (0, None) voteEntries))
      in case w of
           None \<Rightarrow> 0
         | Some i \<Rightarrow> if i < 0 \<or> i \<ge> int n_options then 0 else i)"

text \<open>The number of votes cast for a card index.\<close>

definition votes_for :: "vote list \<Rightarrow> int \<Rightarrow> nat" where
  "votes_for vs i = length (filter (\<lambda>v. card_index v = i) vs)"

text \<open>The count a \<open>voteCounts\<close> object holds for a key (0 when the key is absent).\<close>

definition count_of :: "vote_counts \<Rightarrow> int \<Rightarrow> nat" where
  "count_of voteCounts k = (case map_of voteCounts k of None \<Rightarrow> 0 | Some n \<Rightarrow> n)"

text \<open>What the component sees when its effects run.\<close>

record voting_view =
  votes :: "vote list"
  activePlayers :: nat
  timeLeft :: "nat option"
  decisionAttempted :: bool

definition allVoted :: "voting_view \<Rightarrow> bool" where
  "allVoted v \<longleftrightarrow> length (votes v) = activePlayers v"

definition isUnanimous :: "voting_view \<Rightarrow> bool" where
  "isUnanimous v \<longleftrightarrow>
     allVoted v \<and> length (votes v) > 0
     \<and> list_all (\<lambda>x. card_index x = card_index (hd (votes v))) (votes v)"

text \<open>
  The guards of the three effects that call \<open>handleAutoDecision\<close>: unanimity, everybody
  has voted, countdown at zero.
\<close>

definition unanimous_effect :: "voting_view \<Rightarrow> bool" where
  "unanimous_effect v \<longleftrightarrow> isUnanimous v \<and> \<not> decisionAttempted v"

definition all_voted_effect :: "voting_view \<Rightarrow> bool" where
  "all_voted_effect v \<longleftrightarrow> allVoted v \<and> \<not> decisionAttempted v \<and> \<not> isUnanimous v"

definition countdown_effect :: "voting_view \<Rightarrow> bool" where
  "countdown_effect v \<longleftrightarrow>
     (case timeLeft v of
        None \<Rightarrow> False
      | Some t \<Rightarrow> \<not> t > 0 \<and> \<not> decisionAttempted v \<and> \<not> allVoted v)"

definition decides_now :: "voting_view \<Rightarrow> bool" where
  "decides_now v \<longleftrightarrow> unanimous_effect v \<or> all_voted_effect v \<or> countdown_effect v"

section \<open>Client-side phase transitions\<close>

text \<open>
  The Supabase query \<open>from('game_rooms').update(values).eq('id', roomId)\<close> is
  \<open>update_game_rooms\<close>; with a further \<open>.eq('status', expected)\<close> it is the
  conditional update below.
\<close>

definition update_game_rooms_if_status ::
  "store \<Rightarrow> uuid \<Rightarrow> status \<Rightarrow> (game_room \<Rightarrow> game_room) \<Rightarrow> store" where
  "update_game_rooms_if_status s roomId expected f =
     s\<lparr>game_rooms := map (\<lambda>r. if rid r = roomId \<and> status r = expected then f r else r)
                        (game_rooms s)\<rparr>"

text \<open>VotingResult.tsx, \<open>transitionToResonance\<close>: re-read the status, then a conditional update.\<close>

definition transitionToResonance :: "store \<Rightarrow> uuid \<Rightarrow> store" where
  "transitionToResonance s roomId =
     (case select_room s roomId of
        Some currentRoom \<Rightarrow>
          if status currentRoom \<noteq> Voting_result then s
          else update_game_rooms_if_status s roomId Voting_result
                 (\<lambda>r. r\<lparr>status := Resonance_initial\<rparr>)
      | None \<Rightarrow> update_game_rooms_if_status s roomId Voting_result
                 (\<lambda>r. r\<lparr>status := Resonance_initial\<rparr>))"

datatype phase = Initial | Final

text \<open>\<open>UPDATE players SET ... WHERE room_id = roomId\<close>.\<close>

definition update_room_players :: "store \<Rightarrow> uuid \<Rightarrow> (player \<Rightarrow> player) \<Rightarrow> store" where
  "update_room_players s roomId f =
     s\<lparr>players := map (\<lambda>p. if room_id p = roomId then f p else p) (players s)\<rparr>"

text \<open>ResonanceSharing.tsx, \<open>handleNextPhase\<close> (called with \<open>isTransitioning\<close> false).\<close>

definition handleNextPhase :: "phase \<Rightarrow> store \<Rightarrow> uuid \<Rightarrow> uuid \<Rightarrow> store" where
  "handleNextPhase ph s roomId playerId =
     (let s1 = update_players s playerId (\<lambda>p. p\<lparr>ready_for_next_phase := True\<rparr>);
          allPlayers = filter (\<lambda>p. room_id p = roomId) (players s1);
          activePlayersInDb = filter (\<lambda>p. role p = Player) allPlayers;
          allReadyInDb = list_all ready_for_next_phase activePlayersInDb
      in if allReadyInDb then
           let s2 = update_room_players s1 roomId (\<lambda>p. p\<lparr>ready_for_next_phase := False\<rparr>);
               nextStatus = (if ph = Initial then Playing else Gift_exchange)
           in update_game_rooms s2 roomId (\<lambda>r. r\<lparr>status := nextStatus\<rparr>)
         else s1)"

text \<open>CardExchange.tsx: the write of the timer that ends the exchange phase.\<close>

definition exchange_phase_end :: "store \<Rightarrow> uuid \<Rightarrow> store" where
  "exchange_phase_end s roomId =
     update_game_rooms s roomId
       (\<lambda>r. r\<lparr>status := Playing, current_exchange_turn := 0, exchange_completed := True\<rparr>)"

section \<open>Card conservation\<close>

text \<open>The card references among the gifts a player has received.\<close>

definition gift_cards :: "player \<Rightarrow> card list" where
  "gift_cards p = List.map_filter card_text (final_gifts_received p)"

text \<open>
  All cards of a room: its deck and discard pile, the hands of its active players, and
  the card references in the gifts received by its players.
\<close>

definition room_cards :: "store \<Rightarrow> uuid \<Rightarrow> card list" where
  "room_cards s rm =
     concat (map (\<lambda>r. deck r @ discard_pile r) (filter (\<lambda>r. rid r = rm) (game_rooms s)))
     @ concat (map hand (filter (\<lambda>p. room_id p = rm \<and> role p = Player) (players s)))
     @ concat (map gift_cards (filter (\<lambda>p. room_id p = rm) (players s)))"

text \<open>
  The catalogue \<open>CARD_LIST\<close> of data/cards.ts holds 36 distinct names; the stored
  procedures never look at it, so it is a parameter here.
\<close>

definition card_catalog :: "card list \<Rightarrow> bool" where
  "card_catalog cat \<longleftrightarrow> length cat = 36 \<and> distinct cat"

text \<open>
  Every name of the catalogue occurs exactly once among the cards of the room: the
  collection has size 36, no name occurs twice and none is missing.
\<close>

definition conserved :: "card list \<Rightarrow> store \<Rightarrow> uuid \<Rightarrow> bool" where
  "conserved cat s rm \<longleftrightarrow>
     card_catalog cat
     \<and> length (room_cards s rm) = 36 \<and> distinct (room_cards s rm)
     \<and> set (room_cards s rm) = set cat"

text \<open>The atomic card operations as requests.\<close>

datatype card_op =
    Draw uuid uuid
  | Discard uuid uuid card
  | ExchangeCards uuid uuid card card

text \<open>The store after an operation, whether it succeeded or failed.\<close>

fun run_op :: "store \<Rightarrow> card_op \<Rightarrow> store" where
  "run_op s (Draw rm pl) = snd (atomic_draw_card s rm pl)"
| "run_op s (Discard rm pl c) = snd (atomic_discard_card s rm pl c)"
| "run_op s (ExchangeCards rm pl h b) = snd (atomic_exchange_card s rm pl h b)"

section \<open>Example states\<close>

definition ex_catalog :: "card list" where
  "ex_catalog =
     [''cha'', ''bol'', ''adv'', ''pas'', ''gro'', ''dil'', ''res'', ''ach'', ''sel'',
      ''vir'', ''gra'', ''ser'', ''sin'', ''pop'', ''lov'', ''lei'', ''acc'', ''coo'',
      ''con'', ''dep'', ''pea'', ''gen'', ''hon'', ''bel'', ''est'', ''aut'', ''sol'',
      ''gri'', ''giv'', ''ope'', ''chg'', ''hop'', ''ten'', ''fle'', ''sim'', ''fun'']"

definition ex_player :: "uuid \<Rightarrow> int \<Rightarrow> role \<Rightarrow> card list \<Rightarrow> player" where
  "ex_player i n ro h =
     \<lparr>pid = i, room_id = 1, player_number = n, role = ro, hand = h,
      ready_for_next_phase = False, has_given_final_gift = True,
      final_reflection_text = [], final_gifts_received = []\<rparr>"

definition ex_players :: "player list" where
  "ex_players =
     [ex_player 10 0 Player [''cha'', ''bol'', ''adv''],
      ex_player 11 1 Player [''pas'', ''gro'', ''dil''],
      ex_player 12 2 Player [''res'', ''ach'', ''sel''],
      ex_player 13 3 Player [''vir'', ''gra'', ''ser''],
      ex_player 14 4 Spectator []]"

definition ex_room :: game_room where
  "ex_room =
     \<lparr>rid = 1, status = Playing, current_turn_player = 3, current_exchange_turn = 2,
      round_number = 2, exchange_completed = False, final_phase_turn = 0,
      final_phase_step = Sharing,
      deck = [''acc'', ''coo'', ''con'', ''dep'', ''pea'', ''gen'', ''hon'',
              ''bel'', ''est'', ''aut'', ''sol'', ''gri'', ''giv'', ''ope'',
              ''chg'', ''hop'', ''ten'', ''fle'', ''sim'', ''fun''],
      discard_pile = [''sin'', ''pop'', ''lov'', ''lei'']\<rparr>"

definition ex_store :: store where
  "ex_store = \<lparr>game_rooms = [ex_room], players = ex_players\<rparr>"

text \<open>A state in which card \<open>cha\<close> lies on the board as well as in the hand of player 10.\<close>

definition ex_store_dup :: store where
  "ex_store_dup =
     \<lparr>game_rooms = [ex_room\<lparr>discard_pile := [''sin'', ''pop'', ''lov'', ''lei'', ''cha'']\<rparr>],
      players = ex_players\<rparr>"

text \<open>A state in which card \<open>cha\<close> is in the deck as well as in the hand of player 10.\<close>

definition ex_store_deck_dup :: store where
  "ex_store_deck_dup =
     \<lparr>game_rooms = [ex_room\<lparr>deck := [''cha'', ''acc'', ''coo'']\<rparr>], players = ex_players\<rparr>"

text \<open>The final phase at the reflection step of seat \<open>t\<close>.\<close>

definition ex_store_final :: "int \<Rightarrow> store" where
  "ex_store_final t =
     \<lparr>game_rooms = [ex_room\<lparr>status := Resonance_final, final_phase_turn := t,
                             final_phase_step := Reflection\<rparr>],
      players = ex_players\<rparr>"

text \<open>The room after the game has moved on to the final phase.\<close>

definition ex_store_moved_on :: store where
  "ex_store_moved_on =
     \<lparr>game_rooms = [ex_room\<lparr>status := Resonance_final, round_number := 5,
                             exchange_completed := True\<rparr>],
      players = map (\<lambda>p. p\<lparr>ready_for_next_phase := True\<rparr>) ex_players\<rparr>"

text \<open>Four players have voted 0, 0, 1 and 2 while the countdown is still running.\<close>

definition ex_votes :: "vote list" where
  "ex_votes =
     [\<lparr>player_id = 10, card_index = 0\<rparr>, \<lparr>player_id = 11, card_index = 0\<rparr>,
      \<lparr>player_id = 12, card_index = 1\<rparr>, \<lparr>player_id = 13, card_index = 2\<rparr>]"

definition ex_view :: voting_view where
  "ex_view = \<lparr>votes = ex_votes, activePlayers = 4, timeLeft = Some 170,
              decisionAttempted = False\<rparr>"

section \<open>Facts about the building blocks\<close>

lemma upt_one_Suc_Suc: "[1..<Suc (Suc n)] = 1 # map Suc [1..<Suc n]"
  by (simp add: upt_conv_Cons map_Suc_upt del: upt_Suc)

lemma with_ordinality_Cons:
  "with_ordinality (x # xs) = (x, 1) # map (\<lambda>(v, i). (v, Suc i)) (with_ordinality xs)"
  unfolding with_ordinality_def length_Cons upt_one_Suc_Suc
  by (simp add: zip_map2 del: upt_Suc)

lemma with_ordinality_Nil [simp]: "with_ordinality [] = []"
  by (simp add: with_ordinality_def)

lemma map_fst_with_ordinality [simp]: "map fst (with_ordinality xs) = xs"
  by (simp add: with_ordinality_def del: upt_Suc)

lemma length_with_ordinality [simp]: "length (with_ordinality xs) = length xs"
  by (simp add: with_ordinality_def del: upt_Suc)

lemma snd_with_ordinality_pos: "(v, i) \<in> set (with_ordinality xs) \<Longrightarrow> 0 < i"
  by (auto simp: with_ordinality_def simp del: upt_Suc dest: set_zip_rightD)

lemma zero_notin_with_ordinality [simp]: "(v, 0) \<notin> set (with_ordinality xs)"
  using snd_with_ordinality_pos [of v 0 xs] by auto

lemma drop_first_row: "map fst (filter (\<lambda>(v, idx). idx > 1) (with_ordinality xs)) = tl xs"
proof (cases xs)
  case Nil
  then show ?thesis by simp
next
  case (Cons x ys)
  have "filter (\<lambda>(v, idx). idx > 1) (map (\<lambda>(v, i). (v, Suc i)) (with_ordinality ys))
        = map (\<lambda>(v, i). (v, Suc i)) (with_ordinality ys)"
    by (rule filter_True) (auto dest: snd_with_ordinality_pos)
  then show ?thesis
    by (simp add: Cons with_ordinality_Cons comp_def case_prod_unfold)
qed

lemma card_to_remove_Cons:
  "card_to_remove c (x # xs) = (if x = c then [1] else map Suc (card_to_remove c xs))"
  by (simp add: card_to_remove_def with_ordinality_Cons filter_map comp_def
      case_prod_unfold take_map)

lemma card_to_remove_Nil [simp]: "card_to_remove c [] = []"
  by (simp add: card_to_remove_def)

lemma zero_notin_card_to_remove [simp]: "0 \<notin> set (card_to_remove c xs)"
  unfolding card_to_remove_def
  by (auto dest!: in_set_takeD)

lemma with_ordinality_Cons': "with_ordinality (x # xs) = (x, 1) # map shift_row (with_ordinality xs)"
  by (simp add: with_ordinality_Cons shift_row_def)

lemma map_fst_shift_row [simp]: "map (fst \<circ> shift_row) ws = map fst ws"
  by (simp add: shift_row_def comp_def case_prod_unfold)

lemma filter_shift_row_one:
  "filter (\<lambda>(v, idx). idx \<notin> set [1]) (map shift_row (with_ordinality xs))
   = map shift_row (with_ordinality xs)"
  by (rule filter_True) (auto simp: shift_row_def)

lemma filter_shift_row_Suc:
  "filter (\<lambda>(v, idx). idx \<notin> set (map Suc is)) (map shift_row ws)
   = map shift_row (filter (\<lambda>(v, idx). idx \<notin> set is) ws)"
  by (induction ws) (auto simp: shift_row_def)

lemma remove_card_Cons:
  "remove_card c (x # xs) = (if x = c then xs else x # remove_card c xs)"
proof (cases "x = c")
  case True
  then show ?thesis
    unfolding remove_card_def card_to_remove_Cons with_ordinality_Cons'
    by (simp add: filter_shift_row_one [simplified])
next
  case False
  have "Suc 0 \<notin> Suc ` set (card_to_remove c xs)"
    by (auto simp: image_iff)
  with False show ?thesis
    unfolding remove_card_def card_to_remove_Cons with_ordinality_Cons'
    by (simp add: filter_shift_row_Suc [simplified])
qed

lemma remove_card_Nil [simp]: "remove_card c [] = []"
  by (simp add: remove_card_def)

lemma remove_card_remove1: "remove_card c xs = remove1 c xs"
  by (induction xs) (auto simp: remove_card_Cons)

lemma map_shift_row_one:
  "map (\<lambda>(v, idx). if idx \<in> set [1] then n else v) (map shift_row (with_ordinality xs)) = xs"
proof -
  have "map (\<lambda>(v, idx). if idx \<in> set [1] then n else v) (map shift_row (with_ordinality xs))
        = map fst (with_ordinality xs)"
    unfolding map_map by (rule map_cong) (auto simp: shift_row_def)
  then show ?thesis by simp
qed

lemma map_shift_row_Suc:
  "map (\<lambda>(v, idx). if idx \<in> set (map Suc is) then n else v) (map shift_row ws)
   = map (\<lambda>(v, idx). if idx \<in> set is then n else v) ws"
  by (induction ws) (auto simp: shift_row_def)

lemma replace_card_Cons:
  "replace_card c n (x # xs) = (if x = c then n # xs else x # replace_card c n xs)"
proof (cases "x = c")
  case True
  then show ?thesis
    unfolding replace_card_def card_to_remove_Cons with_ordinality_Cons'
    by (simp add: map_shift_row_one [simplified])
next
  case False
  have "Suc 0 \<notin> Suc ` set (card_to_remove c xs)"
    by (auto simp: image_iff)
  with False show ?thesis
    unfolding replace_card_def card_to_remove_Cons with_ordinality_Cons'
    by (simp add: map_shift_row_Suc [simplified])
qed

lemma replace_card_Nil [simp]: "replace_card c n [] = []"
  by (simp add: replace_card_def)

lemma replace_card_list_update:
  "replace_card c n xs = (if c \<in> set xs then xs[first_index c xs := n] else xs)"
  by (induction xs) (auto simp: replace_card_Cons first_index_def)

lemma first_index_first:
  "c \<in> set xs \<Longrightarrow>
     first_index c xs < length xs \<and> xs ! first_index c xs = c
     \<and> (\<forall>k < first_index c xs. xs ! k \<noteq> c)"
proof (induction xs)
  case Nil
  then show ?case by simp
next
  case (Cons x xs)
  show ?case
  proof (cases "x = c")
    case True
    then show ?thesis by (simp add: first_index_def)
  next
    case False
    with Cons have ih: "first_index c xs < length xs \<and> xs ! first_index c xs = c
        \<and> (\<forall>k < first_index c xs. xs ! k \<noteq> c)"
      by simp
    have f: "first_index c (x # xs) = Suc (first_index c xs)"
      using False by (simp add: first_index_def)
    show ?thesis
      unfolding f using ih False by (auto simp: nth_Cons split: nat.splits)
  qed
qed

lemma mset_replace_card:
  "c \<in> set xs \<Longrightarrow> mset (replace_card c n xs) = mset xs - {#c#} + {#n#}"
  by (induction xs) (auto simp: replace_card_Cons)

lemma find_map_if:
  assumes "\<And>x. P (f x) = P x"
  shows "find P (map (\<lambda>x. if Q x then f x else x) xs)
         = map_option (\<lambda>x. if Q x then f x else x) (find P xs)"
  by (induction xs) (simp_all add: assms)

lemma select_room_update_players [simp]:
  "select_room (update_players s i f) rm = select_room s rm"
  by (simp add: select_room_def update_players_def)

lemma select_player_update_game_rooms [simp]:
  "select_player (update_game_rooms s i f) pl rm = select_player s pl rm"
  by (simp add: select_player_def update_game_rooms_def)

lemma select_room_SomeD: "select_room s rm = Some r \<Longrightarrow> rid r = rm \<and> r \<in> set (game_rooms s)"
  by (auto simp: select_room_def find_Some_iff)

lemma select_player_SomeD:
  "select_player s pl rm = Some p \<Longrightarrow> pid p = pl \<and> room_id p = rm \<and> p \<in> set (players s)"
  by (auto simp: select_player_def find_Some_iff)

lemma select_room_update_game_rooms:
  assumes "select_room s rm = Some r" and "\<And>x. rid (f x) = rid x"
  shows "select_room (update_game_rooms s rm f) rm = Some (f r)"
  using assms select_room_SomeD[OF assms(1)]
  by (simp add: select_room_def update_game_rooms_def find_map_if)

lemma select_player_update_players:
  assumes "select_player s pl rm = Some p"
    and "\<And>x. pid (f x) = pid x" and "\<And>x. room_id (f x) = room_id x"
  shows "select_player (update_players s pl f) pl rm = Some (f p)"
  using assms select_player_SomeD[OF assms(1)]
  by (simp add: select_player_def update_players_def find_map_if)

lemmas ex_defs = ex_store_def ex_room_def ex_players_def ex_player_def
  select_room_def select_player_def

lemma players_has_no_updated_at:
  "sql_update_players [''hand'', ''updated_at''] s i f = None"
  by (simp add: sql_update_players_def players_columns_def)

lemma players_final_phase_columns:
  "sql_update_players [''final_reflection_text''] s i f = Some (update_players s i f)"
  "sql_update_players [''has_given_final_gift''] s i f = Some (update_players s i f)"
  by (simp_all add: sql_update_players_def players_columns_def)

lemma game_rooms_has_updated_at:
  "sql_update_game_rooms [''deck'', ''updated_at''] s i f = Some (update_game_rooms s i f)"
  "sql_update_game_rooms [''discard_pile'', ''updated_at''] s i f = Some (update_game_rooms s i f)"
  "sql_update_game_rooms [''status'', ''final_phase_turn'', ''final_phase_step'', ''updated_at''] s i f
     = Some (update_game_rooms s i f)"
  by (simp_all add: sql_update_game_rooms_def game_rooms_columns_def)

lemma atomic_draw_card_store: "snd (atomic_draw_card s rm pl) = s"
  by (simp add: atomic_draw_card_def Let_def players_has_no_updated_at
      split: option.splits list.splits)

lemma atomic_discard_card_store: "snd (atomic_discard_card s rm pl c) = s"
  by (simp add: atomic_discard_card_def Let_def players_has_no_updated_at
      split: option.splits)

lemma atomic_exchange_card_store: "snd (atomic_exchange_card s rm pl h b) = s"
  by (simp add: atomic_exchange_card_def Let_def players_has_no_updated_at
      split: option.splits)

lemma run_op_store: "run_op s opn = s"
  by (cases opn)
     (simp_all add: atomic_draw_card_store atomic_discard_card_store atomic_exchange_card_store)

section \<open>The draw operation\<close>

text \<open>
  Claim C10. The claim says that the draw succeeds whenever the room row exists, a player
  row of that room exists and the deck is not empty, whatever the status and the turn, and
  that a missing room, a missing player and an empty deck are its only failures. The
  procedure indeed reads neither the status nor the turn, but its first write is
  \<open>UPDATE players SET hand = v_new_hand, updated_at = now()\<close>, and \<open>players\<close> has no
  \<open>updated_at\<close> column: the statement raises, the exception handler returns the generic
  failure and nothing is written. Evaluated for the player on seat 3 of a room in status
  \<open>playing\<close> whose \<open>current_turn_player\<close> is 3 and whose deck holds 20 cards, the draw
  returns the generic failure and the store is unchanged: no card is drawn.
\<close>

theorem atomic_draw_card_fails_on_players_updated_at:
  "select_room ex_store 1 = Some ex_room
   \<and> select_player ex_store 13 1 = Some (ex_player 13 3 Player [''vir'', ''gra'', ''ser''])
   \<and> status ex_room = Playing \<and> current_turn_player ex_room = 3
   \<and> length (deck ex_room) = 20
   \<and> ''updated_at'' \<notin> set players_columns
   \<and> atomic_draw_card ex_store 1 13 = (Inl InternalError, ex_store)"
proof -
  have r: "select_room ex_store 1 = Some ex_room"
    by (simp add: ex_defs)
  have p: "select_player ex_store 13 1 = Some (ex_player 13 3 Player [''vir'', ''gra'', ''ser''])"
    by (simp add: ex_defs)
  have d: "status ex_room = Playing \<and> current_turn_player ex_room = 3
           \<and> length (deck ex_room) = 20"
    by (simp add: ex_room_def)
  have c: "''updated_at'' \<notin> set players_columns"
    by (simp add: players_columns_def)
  have dk: "deck ex_room = ''acc'' # tl (deck ex_room)"
    by (simp add: ex_room_def)
  have "atomic_draw_card ex_store 1 13 = (Inl InternalError, ex_store)"
    unfolding atomic_draw_card_def r p option.case Let_def
    by (subst dk) (simp add: players_has_no_updated_at)
  with r p d c show ?thesis by blast
qed

lemma list_ex_eq [simp]: "list_ex (\<lambda>card. card = c) xs \<longleftrightarrow> c \<in> set xs"
  by (auto simp: list_ex_iff)

lemma pg_mod_seat: "0 \<le> a \<Longrightarrow> pg_mod a 4 = a mod 4"
  by (cases "a = 0") (simp_all add: pg_mod_def)

lemma board_card_in_hands_iff:
  "board_card_in_hands c ps \<longleftrightarrow> (\<exists>q \<in> set ps. c \<in> set (hand q))"
  by (induction ps) auto

lemma in_other_hand_iff:
  "board_card_in_hands b (other_active_players s rm pl) \<longleftrightarrow>
     (\<exists>q \<in> set (players s). room_id q = rm \<and> pid q \<noteq> pl \<and> role q = Player \<and> b \<in> set (hand q))"
  by (auto simp: board_card_in_hands_iff other_active_players_def)

lemma no_match_iff [simp]: "filter (\<lambda>card. card = c) xs = [] \<longleftrightarrow> c \<notin> set xs"
  by (auto simp: filter_empty_conv)

section \<open>The discard operation\<close>

text \<open>
  Claim C2. The claim says that a discard of a card that is in the acting player's hand
  removes it from the hand, appends it to the discard pile and advances the turn, the
  round and the status. The procedure computes these values, but its first write is
  \<open>UPDATE players SET hand = v_new_hand, updated_at = now()\<close>, and \<open>players\<close> has no
  \<open>updated_at\<close> column: the statement raises, the exception handler returns the generic
  failure and nothing is written. Evaluated for the player on seat 3 of a room in status
  \<open>playing\<close> whose \<open>current_turn_player\<close> is 3, discarding the card \<open>vir\<close> of the own
  hand returns the generic failure and the store is unchanged. The other half of the claim
  holds: a card that is not in the hand is rejected with the card-not-in-hand failure.
\<close>

theorem atomic_discard_card_fails_on_players_updated_at:
  "select_room ex_store 1 = Some ex_room
   \<and> select_player ex_store 13 1 = Some (ex_player 13 3 Player [''vir'', ''gra'', ''ser''])
   \<and> status ex_room = Playing \<and> current_turn_player ex_room = 3
   \<and> ''vir'' \<in> set (hand (ex_player 13 3 Player [''vir'', ''gra'', ''ser'']))
   \<and> ''updated_at'' \<notin> set players_columns
   \<and> atomic_discard_card ex_store 1 13 ''vir'' = (Inl InternalError, ex_store)
   \<and> ''fun'' \<notin> set (hand (ex_player 13 3 Player [''vir'', ''gra'', ''ser'']))
   \<and> atomic_discard_card ex_store 1 13 ''fun'' = (Inl CardNotInHand, ex_store)"
proof -
  let ?p = "ex_player 13 3 Player [''vir'', ''gra'', ''ser'']"
  have r: "select_room ex_store 1 = Some ex_room"
    by (simp add: ex_defs)
  have p: "select_player ex_store 13 1 = Some ?p"
    by (simp add: ex_defs)
  have d: "status ex_room = Playing \<and> current_turn_player ex_room = 3"
    by (simp add: ex_room_def)
  have h: "''vir'' \<in> set (hand ?p)" "''fun'' \<notin> set (hand ?p)"
    by (simp_all add: ex_player_def)
  have c: "''updated_at'' \<notin> set players_columns"
    by (simp add: players_columns_def)
  have ok: "int4_ok (current_turn_player ex_room + 1)" "int4_ok (round_number ex_room + 1)"
    by (simp_all add: ex_room_def int4_ok_def)
  have 1: "atomic_discard_card ex_store 1 13 ''vir'' = (Inl InternalError, ex_store)"
    unfolding atomic_discard_card_def r p option.case Let_def
    using h ok by (simp add: players_has_no_updated_at)
  have 2: "atomic_discard_card ex_store 1 13 ''fun'' = (Inl CardNotInHand, ex_store)"
    unfolding atomic_discard_card_def r p option.case
    using h by simp
  from r p d h c 1 2 show ?thesis by blast
qed

section \<open>The exchange operation\<close>

text \<open>
  Claim C3. An exchange whose offered hand card already lies in the discard pile, or
  whose requested board card is already in the hand of another active player of the room,
  is rejected with a duplicate-card failure and leaves the whole store unchanged; so do the
  rejections for a hand card that is not in the hand and a board card that is not on the
  board. In fact every failure of the exchange returns the store it was given.
\<close>

theorem atomic_exchange_card_rejections:
  "(select_room s rm = Some r \<and> select_player s pl rm = Some p \<longrightarrow>
      (h \<notin> set (hand p) \<longrightarrow> atomic_exchange_card s rm pl h b = (Inl HandCardNotFound, s))
    \<and> (h \<in> set (hand p) \<and> b \<notin> set (discard_pile r) \<longrightarrow>
          atomic_exchange_card s rm pl h b = (Inl BoardCardNotFound, s))
    \<and> (h \<in> set (hand p) \<and> b \<in> set (discard_pile r)
        \<and> (h \<in> set (discard_pile r)
           \<or> (\<exists>q \<in> set (players s).
                 room_id q = rm \<and> pid q \<noteq> pl \<and> role q = Player \<and> b \<in> set (hand q)))
        \<longrightarrow> (\<exists>f. atomic_exchange_card s rm pl h b = (Inl f, s) \<and> duplicate_card_violation f)))
   \<and> (\<forall>f. fst (atomic_exchange_card s rm pl h b) = Inl f \<longrightarrow>
          snd (atomic_exchange_card s rm pl h b) = s)"
proof (intro conjI impI allI)
  fix f assume "fst (atomic_exchange_card s rm pl h b) = Inl f"
  then show "snd (atomic_exchange_card s rm pl h b) = s"
    by (simp only: atomic_exchange_card_store)
next
  assume "select_room s rm = Some r \<and> select_player s pl rm = Some p" "h \<notin> set (hand p)"
  then show "atomic_exchange_card s rm pl h b = (Inl HandCardNotFound, s)"
    by (simp add: atomic_exchange_card_def)
next
  assume "select_room s rm = Some r \<and> select_player s pl rm = Some p"
    "h \<in> set (hand p) \<and> b \<notin> set (discard_pile r)"
  then show "atomic_exchange_card s rm pl h b = (Inl BoardCardNotFound, s)"
    by (simp add: atomic_exchange_card_def)
next
  assume a: "select_room s rm = Some r \<and> select_player s pl rm = Some p"
  assume g: "h \<in> set (hand p) \<and> b \<in> set (discard_pile r)
        \<and> (h \<in> set (discard_pile r)
           \<or> (\<exists>q \<in> set (players s).
                 room_id q = rm \<and> pid q \<noteq> pl \<and> role q = Player \<and> b \<in> set (hand q)))"
  show "\<exists>f. atomic_exchange_card s rm pl h b = (Inl f, s) \<and> duplicate_card_violation f"
  proof (cases "h \<in> set (discard_pile r)")
    case True
    with a g have "atomic_exchange_card s rm pl h b = (Inl HandCardAlreadyOnBoard, s)"
      by (simp add: atomic_exchange_card_def)
    then show ?thesis by (simp add: duplicate_card_violation_def)
  next
    case False
    with g have "board_card_in_hands b (other_active_players s rm pl)"
      unfolding in_other_hand_iff by blast
    with a g False have "atomic_exchange_card s rm pl h b = (Inl BoardCardInOtherHand, s)"
      by (simp add: atomic_exchange_card_def)
    then show ?thesis by (simp add: duplicate_card_violation_def)
  qed
qed

theorem atomic_exchange_card_rejections_witness:
  "select_room ex_store_dup 1
     = Some (ex_room\<lparr>discard_pile := [''sin'', ''pop'', ''lov'', ''lei'', ''cha'']\<rparr>)
   \<and> select_player ex_store_dup 10 1 = Some (ex_player 10 0 Player [''cha'', ''bol'', ''adv''])
   \<and> ''cha'' \<in> set (hand (ex_player 10 0 Player [''cha'', ''bol'', ''adv'']))
   \<and> ''sin'' \<in> set [''sin'', ''pop'', ''lov'', ''lei'', ''cha'']
   \<and> ''cha'' \<in> set [''sin'', ''pop'', ''lov'', ''lei'', ''cha'']
   \<and> (\<exists>f. atomic_exchange_card ex_store_dup 1 10 ''cha'' ''sin'' = (Inl f, ex_store_dup)
           \<and> duplicate_card_violation f)
   \<and> select_player ex_store_dup 11 1 = Some (ex_player 11 1 Player [''pas'', ''gro'', ''dil''])
   \<and> ''pas'' \<in> set (hand (ex_player 11 1 Player [''pas'', ''gro'', ''dil'']))
   \<and> ''pas'' \<notin> set [''sin'', ''pop'', ''lov'', ''lei'', ''cha'']
   \<and> (\<exists>f. atomic_exchange_card ex_store_dup 1 11 ''pas'' ''cha'' = (Inl f, ex_store_dup)
           \<and> duplicate_card_violation f)
   \<and> ''fun'' \<notin> set (hand (ex_player 10 0 Player [''cha'', ''bol'', ''adv'']))
   \<and> atomic_exchange_card ex_store_dup 1 10 ''fun'' ''sin'' = (Inl HandCardNotFound, ex_store_dup)
   \<and> ''fun'' \<notin> set [''sin'', ''pop'', ''lov'', ''lei'', ''cha'']
   \<and> atomic_exchange_card ex_store_dup 1 10 ''bol'' ''fun''
       = (Inl BoardCardNotFound, ex_store_dup)"
proof -
  let ?r = "ex_room\<lparr>discard_pile := [''sin'', ''pop'', ''lov'', ''lei'', ''cha'']\<rparr>"
  let ?p = "ex_player 10 0 Player [''cha'', ''bol'', ''adv'']"
  let ?q = "ex_player 11 1 Player [''pas'', ''gro'', ''dil'']"
  have h: "select_room ex_store_dup 1 = Some ?r \<and> select_player ex_store_dup 10 1 = Some ?p"
    by (simp add: ex_store_dup_def ex_defs)
  have h': "select_room ex_store_dup 1 = Some ?r \<and> select_player ex_store_dup 11 1 = Some ?q"
    by (simp add: ex_store_dup_def ex_defs)
  have d: "discard_pile ?r = [''sin'', ''pop'', ''lov'', ''lei'', ''cha'']"
    by simp
  have g: "''cha'' \<in> set (hand ?p)" "''sin'' \<in> set (discard_pile ?r)"
          "''cha'' \<in> set (discard_pile ?r)" "''bol'' \<in> set (hand ?p)"
          "''fun'' \<notin> set (hand ?p)" "''fun'' \<notin> set (discard_pile ?r)"
    by (simp_all add: ex_player_def)
  have g': "''pas'' \<in> set (hand ?q)" "''pas'' \<notin> set (discard_pile ?r)"
    by (simp_all add: ex_player_def)
  have o: "\<exists>q \<in> set (players ex_store_dup).
             room_id q = 1 \<and> pid q \<noteq> 11 \<and> role q = Player \<and> ''cha'' \<in> set (hand q)"
    by (simp add: ex_store_dup_def ex_players_def ex_player_def)
  from atomic_exchange_card_rejections [of ex_store_dup 1 ?r 10 ?p "''cha''" "''sin''"] h g
  have 1: "\<exists>f. atomic_exchange_card ex_store_dup 1 10 ''cha'' ''sin'' = (Inl f, ex_store_dup)
           \<and> duplicate_card_violation f"
    by blast
  from atomic_exchange_card_rejections [of ex_store_dup 1 ?r 11 ?q "''pas''" "''cha''"] h' g g' o
  have 2: "\<exists>f. atomic_exchange_card ex_store_dup 1 11 ''pas'' ''cha'' = (Inl f, ex_store_dup)
           \<and> duplicate_card_violation f"
    by blast
  from atomic_exchange_card_rejections [of ex_store_dup 1 ?r 10 ?p "''fun''" "''sin''"] h g
  have 3: "atomic_exchange_card ex_store_dup 1 10 ''fun'' ''sin'' = (Inl HandCardNotFound, ex_store_dup)"
    by blast
  from atomic_exchange_card_rejections [of ex_store_dup 1 ?r 10 ?p "''bol''" "''fun''"] h g
  have 4: "atomic_exchange_card ex_store_dup 1 10 ''bol'' ''fun''
       = (Inl BoardCardNotFound, ex_store_dup)"
    by blast
  from h h' g g' 1 2 3 4 show ?thesis unfolding d by blast
qed

text \<open>
  Claim C4. The claim says that an exchange whose preconditions all hold succeeds with a
  swap in place. The procedure computes the two swapped arrays (\<open>replace_card\<close> writes
  the new card at the position of the first occurrence, see \<open>replace_card_list_update\<close>),
  but its first write is \<open>UPDATE players SET hand = v_new_hand, updated_at = now()\<close>,
  and \<open>players\<close> has no \<open>updated_at\<close> column: the statement raises, the exception
  handler returns the generic failure and nothing is written. Evaluated for a player
  holding \<open>gro\<close> and a discard pile holding \<open>lov\<close>, with \<open>gro\<close> not on the board and
  \<open>lov\<close> in no other active player's hand, the exchange returns the generic failure; the
  hand and the discard pile are as before.
\<close>

theorem atomic_exchange_card_fails_on_players_updated_at:
  "select_room ex_store 1 = Some ex_room
   \<and> select_player ex_store 11 1 = Some (ex_player 11 1 Player [''pas'', ''gro'', ''dil''])
   \<and> ''gro'' \<in> set (hand (ex_player 11 1 Player [''pas'', ''gro'', ''dil'']))
   \<and> ''lov'' \<in> set (discard_pile ex_room) \<and> ''gro'' \<notin> set (discard_pile ex_room)
   \<and> board_card_in_hands ''lov'' (other_active_players ex_store 1 11) = False
   \<and> ''updated_at'' \<notin> set players_columns
   \<and> atomic_exchange_card ex_store 1 11 ''gro'' ''lov'' = (Inl InternalError, ex_store)
   \<and> map_option hand
        (select_player (snd (atomic_exchange_card ex_store 1 11 ''gro'' ''lov'')) 11 1)
       = Some [''pas'', ''gro'', ''dil'']
   \<and> map_option discard_pile
        (select_room (snd (atomic_exchange_card ex_store 1 11 ''gro'' ''lov'')) 1)
       = Some [''sin'', ''pop'', ''lov'', ''lei'']"
proof -
  let ?p = "ex_player 11 1 Player [''pas'', ''gro'', ''dil'']"
  have r: "select_room ex_store 1 = Some ex_room"
    by (simp add: ex_defs)
  have p: "select_player ex_store 11 1 = Some ?p"
    by (simp add: ex_defs)
  have h: "''gro'' \<in> set (hand ?p)" "''lov'' \<in> set (discard_pile ex_room)"
          "''gro'' \<notin> set (discard_pile ex_room)"
    by (simp_all add: ex_player_def ex_room_def)
  have o: "board_card_in_hands ''lov'' (other_active_players ex_store 1 11) = False"
    by (simp add: other_active_players_def ex_store_def ex_players_def ex_player_def)
  have c: "''updated_at'' \<notin> set players_columns"
    by (simp add: players_columns_def)
  have 1: "atomic_exchange_card ex_store 1 11 ''gro'' ''lov'' = (Inl InternalError, ex_store)"
    unfolding atomic_exchange_card_def r p option.case Let_def
    using h o by (simp add: players_has_no_updated_at)
  have 2: "map_option hand (select_player ex_store 11 1) = Some [''pas'', ''gro'', ''dil'']"
    unfolding p by (simp add: ex_player_def)
  have 3: "map_option discard_pile (select_room ex_store 1) = Some [''sin'', ''pop'', ''lov'', ''lei'']"
    unfolding r by (simp add: ex_room_def)
  from r p h o c 1 2 3 show ?thesis by simp
qed

lemma upt_0_4: "[0..<4] = [0, 1, 2, Suc 2]"
  by (simp add: upt_rec)

lemma set_size_eq_length_iff: "set_size xs = length xs \<longleftrightarrow> distinct xs"
  by (simp add: set_size_def length_remdups_eq remdups_id_iff_distinct)

lemma deal_slices:
  "map (\<lambda>i. slice d (i * 3) ((i + 1) * 3)) [0..<4]
   = [take 3 d, take 3 (drop 3 d), take 3 (drop 6 d), take 3 (drop 9 d)]"
  by (simp add: upt_0_4 slice_def)

lemma concat_deal_slices:
  "concat [take 3 d, take 3 (drop 3 d), take 3 (drop 6 d), take 3 (drop 9 d)] = take 12 d"
proof -
  have "take 12 d = take 3 d @ take 9 (drop 3 d)"
    using take_add [of 3 9 d] by simp
  also have "take 9 (drop 3 d) = take 3 (drop 3 d) @ take 6 (drop 6 d)"
    using take_add [of 3 6 "drop 3 d"] by simp
  also have "take 6 (drop 6 d) = take 3 (drop 6 d) @ take 3 (drop 9 d)"
    using take_add [of 3 3 "drop 6 d"] by simp
  finally show ?thesis by simp
qed

lemma ex_catalog_ok: "length ex_catalog = 36 \<and> distinct ex_catalog"
  by (simp add: ex_catalog_def)

section \<open>Dealing the initial hands\<close>

text \<open>
  Claim C9. For a deck of exactly 36 distinct cards \<open>dealInitialHands\<close> returns four
  hands, hand \<open>i\<close> holding the deck's cards at positions \<open>3i\<close> to \<open>3i + 2\<close>, an empty
  discard pile and the cards from position 12 on (24 cards) as the remaining deck; the
  dealt cards and the remaining deck are disjoint and together they are the deck. For any
  other deck (length not 36, or a duplicate) the function throws.
\<close>

theorem dealInitialHands_deals_or_fails:
  "(length d = 36 \<and> distinct d \<longrightarrow>
      (let hs = [take 3 d, take 3 (drop 3 d), take 3 (drop 6 d), take 3 (drop 9 d)]
       in dealInitialHands d = Inr \<lparr>hands = hs, discardPile = [], remainingDeck = drop 12 d\<rparr>
         \<and> length hs = 4
         \<and> (\<forall>i < 4. length (hs ! i) = 3 \<and> (\<forall>k < 3. hs ! i ! k = d ! (3 * i + k)))
         \<and> length (drop 12 d) = 24
         \<and> set (concat hs) \<inter> set (drop 12 d) = {}
         \<and> concat hs @ drop 12 d = d))
   \<and> (length d \<noteq> 36 \<or> \<not> distinct d \<longrightarrow> (\<exists>e. dealInitialHands d = Inl e))"
proof (intro conjI impI)
  assume "length d \<noteq> 36 \<or> \<not> distinct d"
  then have "length d \<noteq> EXPECTED_DECK_SIZE \<or> set_size d \<noteq> EXPECTED_DECK_SIZE"
    using set_size_eq_length_iff [of d] by (auto simp: EXPECTED_DECK_SIZE_def)
  then show "\<exists>e. dealInitialHands d = Inl e"
    by (simp add: dealInitialHands_def)
next
  assume a: "length d = 36 \<and> distinct d"
  let ?hs = "[take 3 d, take 3 (drop 3 d), take 3 (drop 6 d), take 3 (drop 9 d)]"
  have sz: "set_size d = 36"
    using a set_size_eq_length_iff [of d] by simp
  have dealt: "slice d 0 12 = take 12 d"
    by (simp add: slice_def)
  have disj: "set (take 12 d) \<inter> set (drop 12 d) = {}"
    using a by (simp add: set_take_disj_set_drop_if_distinct)
  then have no_overlap: "\<not> list_ex (\<lambda>c. c \<in> set (drop 12 d)) (take 12 d)"
    by (auto simp: list_ex_iff)
  have "distinct (take 12 d)" using a by simp
  then have sz12: "set_size (take 12 d) = 12"
    using set_size_eq_length_iff [of "take 12 d"] a by simp
  have res: "dealInitialHands d = Inr \<lparr>hands = ?hs, discardPile = [], remainingDeck = drop 12 d\<rparr>"
    unfolding dealInitialHands_def Let_def deal_slices dealt
    using a by (simp add: EXPECTED_DECK_SIZE_def sz no_overlap sz12)
  have pos: "\<forall>i < 4. length (?hs ! i) = 3 \<and> (\<forall>k < 3. ?hs ! i ! k = d ! (3 * i + k))"
  proof (intro allI impI)
    fix i :: nat assume i: "i < 4"
    then consider "i = 0" | "i = 1" | "i = 2" | "i = 3" by linarith
    then have sl: "?hs ! i = take 3 (drop (3 * i) d)"
      by cases simp_all
    have "length (take 3 (drop (3 * i) d)) = 3"
      using a i by simp
    moreover have "\<forall>k < 3. take 3 (drop (3 * i) d) ! k = d ! (3 * i + k)"
      using a i by simp
    ultimately show "length (?hs ! i) = 3 \<and> (\<forall>k < 3. ?hs ! i ! k = d ! (3 * i + k))"
      unfolding sl by blast
  qed
  have cat: "concat ?hs = take 12 d"
    by (rule concat_deal_slices)
  have "length ?hs = 4 \<and> length (drop 12 d) = 24
        \<and> set (concat ?hs) \<inter> set (drop 12 d) = {} \<and> concat ?hs @ drop 12 d = d"
    using a disj unfolding cat by simp
  with res pos
  show "let hs = ?hs
       in dealInitialHands d = Inr \<lparr>hands = hs, discardPile = [], remainingDeck = drop 12 d\<rparr>
         \<and> length hs = 4
         \<and> (\<forall>i < 4. length (hs ! i) = 3 \<and> (\<forall>k < 3. hs ! i ! k = d ! (3 * i + k)))
         \<and> length (drop 12 d) = 24
         \<and> set (concat hs) \<inter> set (drop 12 d) = {}
         \<and> concat hs @ drop 12 d = d"
    unfolding Let_def by blast
qed

theorem dealInitialHands_witness:
  "length ex_catalog = 36 \<and> distinct ex_catalog
   \<and> dealInitialHands ex_catalog =
       Inr \<lparr>hands = [[''cha'', ''bol'', ''adv''], [''pas'', ''gro'', ''dil''],
                     [''res'', ''ach'', ''sel''], [''vir'', ''gra'', ''ser'']],
            discardPile = [],
            remainingDeck = drop 12 ex_catalog\<rparr>
   \<and> length [''cha'', ''cha''] = 2
   \<and> (\<exists>e. dealInitialHands [''cha'', ''cha''] = Inl e)"
proof -
  have t: "[take 3 ex_catalog, take 3 (drop 3 ex_catalog), take 3 (drop 6 ex_catalog),
            take 3 (drop 9 ex_catalog)]
           = [[''cha'', ''bol'', ''adv''], [''pas'', ''gro'', ''dil''],
              [''res'', ''ach'', ''sel''], [''vir'', ''gra'', ''ser'']]"
    by (simp add: ex_catalog_def)
  from dealInitialHands_deals_or_fails [of ex_catalog] ex_catalog_ok
  have "dealInitialHands ex_catalog =
       Inr \<lparr>hands = [[''cha'', ''bol'', ''adv''], [''pas'', ''gro'', ''dil''],
                     [''res'', ''ach'', ''sel''], [''vir'', ''gra'', ''ser'']],
            discardPile = [],
            remainingDeck = drop 12 ex_catalog\<rparr>"
    unfolding Let_def t by blast
  moreover from dealInitialHands_deals_or_fails [of "[''cha'', ''cha'']"]
  have "\<exists>e. dealInitialHands [''cha'', ''cha''] = Inl e" by simp
  ultimately show ?thesis using ex_catalog_ok by simp
qed

lemma select_room_update_active_players [simp]:
  "select_room (update_active_players s i f) rm = select_room s rm"
  by (simp add: select_room_def update_active_players_def)

lemma share_final_reflection_next_seat:
  assumes a: "select_room s rm = Some r" "final_phase_step r = Reflection"
   "select_player s pl rm = Some p" "player_number p = final_phase_turn r"
  and b: "0 \<le> final_phase_turn r" "final_phase_turn r < 3"
  shows "share_final_reflection s rm pl txt =
        (Inr \<lparr>next_turn = final_phase_turn r + 1, is_complete = False\<rparr>,
         update_active_players
           (update_game_rooms (update_players s pl (\<lambda>p. p\<lparr>final_reflection_text := txt\<rparr>)) rm
              (\<lambda>x. x\<lparr>final_phase_turn := final_phase_turn r + 1, final_phase_step := Sharing\<rparr>))
           rm (\<lambda>p. p\<lparr>has_given_final_gift := False\<rparr>))"
proof -
  have ok: "int4_ok (final_phase_turn r + 1)"
    using b by (simp add: int4_ok_def)
  have n4: "\<not> 4 \<le> final_phase_turn r + 1" "final_phase_turn r + 1 \<noteq> 0"
    using b by simp_all
  show ?thesis
    unfolding share_final_reflection_def Let_def
    by (simp only: a ok n4 option.case if_True if_False not_not simp_thms)
qed


lemma share_final_reflection_last_seat:
  assumes a: "select_room s rm = Some r" "final_phase_step r = Reflection"
   "select_player s pl rm = Some p" "player_number p = final_phase_turn r"
  and b: "final_phase_turn r = 3"
  shows "share_final_reflection s rm pl txt =
        (Inr \<lparr>next_turn = 0, is_complete = True\<rparr>,
         update_game_rooms (update_players s pl (\<lambda>p. p\<lparr>final_reflection_text := txt\<rparr>)) rm
              (\<lambda>x. x\<lparr>status := Complete, final_phase_turn := 0, final_phase_step := Sharing\<rparr>))"
proof -
  have ok: "int4_ok (final_phase_turn r + 1)"
    using b by (simp add: int4_ok_def)
  have n4: "4 \<le> final_phase_turn r + 1"
    using b by simp
  show ?thesis
    unfolding share_final_reflection_def Let_def
    by (simp only: a ok n4 option.case if_True if_False not_not simp_thms)
qed

lemma room_after_reflection:
  assumes "select_room s rm = Some r" and "\<And>x. rid (f x) = rid x"
  shows "select_room (update_game_rooms (update_players s pl g) rm f) rm = Some (f r)"
  using assms by (simp add: select_room_update_game_rooms)

lemma flags_reset:
  assumes "q \<in> set (players (update_active_players s rm (\<lambda>p. p\<lparr>has_given_final_gift := False\<rparr>)))"
    and "room_id q = rm" and "role q = Player"
  shows "\<not> has_given_final_gift q"
proof -
  let ?g = "\<lambda>p. if room_id p = rm \<and> role p = Player then p\<lparr>has_given_final_gift := False\<rparr> else p"
  have "players (update_active_players s rm (\<lambda>p. p\<lparr>has_given_final_gift := False\<rparr>))
        = map ?g (players s)"
    by (simp add: update_active_players_def)
  with assms(1) obtain p where p: "q = ?g p"
    by (auto simp only: set_map image_iff)
  show ?thesis
  proof (cases "room_id p = rm \<and> role p = Player")
    case True
    with p have "q = p\<lparr>has_given_final_gift := False\<rparr>" by simp
    then show ?thesis by simp
  next
    case False
    with p have "q = p" by simp
    with False assms(2,3) show ?thesis by blast
  qed
qed

lemma share_final_reflection_wrong_step:
  assumes "select_room s rm = Some r" and "final_phase_step r \<noteq> Reflection"
  shows "share_final_reflection s rm pl txt = (Inl NotReflectionStep, s)"
  unfolding share_final_reflection_def
  by (simp only: assms option.case if_True simp_thms)

section \<open>The reflection step of the final phase\<close>

text \<open>
  The columns written by \<open>share_final_reflection\<close> exist (\<open>players_final_phase_columns\<close>,
  \<open>game_rooms_has_updated_at\<close>), so its UPDATE statements do not raise.
\<close>

text \<open>
  Claim C8 (as amended). When the player whose seat is \<open>final_phase_turn\<close> submits the
  reflection in the reflection step: for a seat other than 3 the turn moves to the next
  seat, the step is reset to sharing and \<open>has_given_final_gift\<close> is false for every
  active player of the room afterwards; for seat 3 the status becomes the terminal
  \<open>complete\<close>, \<open>final_phase_turn\<close> is reset to 0 and \<open>final_phase_step\<close> is reset to
  sharing, the call returns next turn 0 with the completion flag set, and any further
  reflection submitted for the room is rejected without changing anything.
\<close>

theorem share_final_reflection_completion:
  "select_room s rm = Some r \<and> final_phase_step r = Reflection
   \<and> select_player s pl rm = Some p \<and> player_number p = final_phase_turn r \<longrightarrow>
     (0 \<le> final_phase_turn r \<and> final_phase_turn r < 3 \<longrightarrow>
        (\<exists>s'. share_final_reflection s rm pl txt =
                 (Inr \<lparr>next_turn = final_phase_turn r + 1, is_complete = False\<rparr>, s')
           \<and> select_room s' rm =
               Some (r\<lparr>final_phase_turn := final_phase_turn r + 1, final_phase_step := Sharing\<rparr>)
           \<and> (\<forall>q \<in> set (players s').
                 room_id q = rm \<and> role q = Player \<longrightarrow> \<not> has_given_final_gift q)))
   \<and> (final_phase_turn r = 3 \<longrightarrow>
        (\<exists>s' r'. share_final_reflection s rm pl txt =
                 (Inr \<lparr>next_turn = 0, is_complete = True\<rparr>, s')
           \<and> select_room s' rm = Some r'
           \<and> r' = r\<lparr>status := Complete, final_phase_turn := 0, final_phase_step := Sharing\<rparr>
           \<and> status r' = Complete \<and> terminal (status r')
           \<and> final_phase_turn r' = 0
           \<and> final_phase_step r' = Sharing
           \<and> (\<forall>pl' txt'. share_final_reflection s' rm pl' txt'
                               = (Inl NotReflectionStep, s'))))"
proof (intro impI conjI)
  assume a: "select_room s rm = Some r \<and> final_phase_step r = Reflection
   \<and> select_player s pl rm = Some p \<and> player_number p = final_phase_turn r"
  assume b: "0 \<le> final_phase_turn r \<and> final_phase_turn r < 3"
  let ?f = "\<lambda>x. x\<lparr>final_phase_turn := final_phase_turn r + 1, final_phase_step := Sharing\<rparr>"
  let ?s2 = "update_game_rooms (update_players s pl (\<lambda>p. p\<lparr>final_reflection_text := txt\<rparr>)) rm ?f"
  let ?s3 = "update_active_players ?s2 rm (\<lambda>p. p\<lparr>has_given_final_gift := False\<rparr>)"
  have res: "share_final_reflection s rm pl txt =
        (Inr \<lparr>next_turn = final_phase_turn r + 1, is_complete = False\<rparr>, ?s3)"
    using a b by (intro share_final_reflection_next_seat) blast+
  have "select_room ?s2 rm = Some (?f r)"
    using a by (intro room_after_reflection) simp_all
  then have rm: "select_room ?s3 rm
      = Some (r\<lparr>final_phase_turn := final_phase_turn r + 1, final_phase_step := Sharing\<rparr>)"
    by (simp only: select_room_update_active_players)
  have fl: "\<forall>q \<in> set (players ?s3). room_id q = rm \<and> role q = Player \<longrightarrow> \<not> has_given_final_gift q"
    using flags_reset [of _ ?s2 rm] by blast
  from res rm fl
  show "\<exists>s'. share_final_reflection s rm pl txt =
                 (Inr \<lparr>next_turn = final_phase_turn r + 1, is_complete = False\<rparr>, s')
           \<and> select_room s' rm =
               Some (r\<lparr>final_phase_turn := final_phase_turn r + 1, final_phase_step := Sharing\<rparr>)
           \<and> (\<forall>q \<in> set (players s').
                 room_id q = rm \<and> role q = Player \<longrightarrow> \<not> has_given_final_gift q)"
    by (intro exI [of _ ?s3] conjI)
next
  assume a: "select_room s rm = Some r \<and> final_phase_step r = Reflection
   \<and> select_player s pl rm = Some p \<and> player_number p = final_phase_turn r"
  assume b: "final_phase_turn r = 3"
  let ?f = "\<lambda>x. x\<lparr>status := Complete, final_phase_turn := 0, final_phase_step := Sharing\<rparr>"
  let ?s2 = "update_game_rooms (update_players s pl (\<lambda>p. p\<lparr>final_reflection_text := txt\<rparr>)) rm ?f"
  have res: "share_final_reflection s rm pl txt = (Inr \<lparr>next_turn = 0, is_complete = True\<rparr>, ?s2)"
    using a b by (intro share_final_reflection_last_seat) blast+
  have rm: "select_room ?s2 rm = Some (?f r)"
    using a by (intro room_after_reflection) simp_all
  have t: "status (?f r) = Complete \<and> terminal (status (?f r))
           \<and> final_phase_turn (?f r) = 0 \<and> final_phase_step (?f r) = Sharing"
    by (simp add: terminal_def)
  have "final_phase_step (?f r) \<noteq> Reflection"
    by simp
  with rm have again: "\<forall>pl' txt'. share_final_reflection ?s2 rm pl' txt'
                               = (Inl NotReflectionStep, ?s2)"
    by (intro allI share_final_reflection_wrong_step)
  from res rm t again
  show "\<exists>s' r'. share_final_reflection s rm pl txt =
                 (Inr \<lparr>next_turn = 0, is_complete = True\<rparr>, s')
           \<and> select_room s' rm = Some r'
           \<and> r' = r\<lparr>status := Complete, final_phase_turn := 0, final_phase_step := Sharing\<rparr>
           \<and> status r' = Complete \<and> terminal (status r')
           \<and> final_phase_turn r' = 0
           \<and> final_phase_step r' = Sharing
           \<and> (\<forall>pl' txt'. share_final_reflection s' rm pl' txt'
                               = (Inl NotReflectionStep, s'))"
    by (intro exI [of _ ?s2] exI [of _ "?f r"]) simp
qed

theorem share_final_reflection_witness:
  "select_room (ex_store_final 1) 1
     = Some (ex_room\<lparr>status := Resonance_final, final_phase_turn := 1,
                     final_phase_step := Reflection\<rparr>)
   \<and> select_player (ex_store_final 1) 11 1 = Some (ex_player 11 1 Player [''pas'', ''gro'', ''dil''])
   \<and> fst (share_final_reflection (ex_store_final 1) 1 11 ''thanks'')
       = Inr \<lparr>next_turn = 2, is_complete = False\<rparr>
   \<and> select_room (ex_store_final 3) 1
     = Some (ex_room\<lparr>status := Resonance_final, final_phase_turn := 3,
                     final_phase_step := Reflection\<rparr>)
   \<and> select_player (ex_store_final 3) 13 1 = Some (ex_player 13 3 Player [''vir'', ''gra'', ''ser''])
   \<and> fst (share_final_reflection (ex_store_final 3) 1 13 ''thanks'')
       = Inr \<lparr>next_turn = 0, is_complete = True\<rparr>
   \<and> select_room (snd (share_final_reflection (ex_store_final 3) 1 13 ''thanks'')) 1
       = Some (ex_room\<lparr>status := Complete, final_phase_turn := 0, final_phase_step := Sharing\<rparr>)"
proof -
  let ?r1 = "ex_room\<lparr>status := Resonance_final, final_phase_turn := 1,
                     final_phase_step := Reflection\<rparr>"
  let ?r3 = "ex_room\<lparr>status := Resonance_final, final_phase_turn := 3,
                     final_phase_step := Reflection\<rparr>"
  let ?p1 = "ex_player 11 1 Player [''pas'', ''gro'', ''dil'']"
  let ?p3 = "ex_player 13 3 Player [''vir'', ''gra'', ''ser'']"
  have h1: "select_room (ex_store_final 1) 1 = Some ?r1 \<and> final_phase_step ?r1 = Reflection
     \<and> select_player (ex_store_final 1) 11 1 = Some ?p1
     \<and> player_number ?p1 = final_phase_turn ?r1"
    by (simp add: ex_store_final_def ex_defs)
  have h3: "select_room (ex_store_final 3) 1 = Some ?r3 \<and> final_phase_step ?r3 = Reflection
     \<and> select_player (ex_store_final 3) 13 1 = Some ?p3
     \<and> player_number ?p3 = final_phase_turn ?r3"
    by (simp add: ex_store_final_def ex_defs)
  have t1: "0 \<le> final_phase_turn ?r1 \<and> final_phase_turn ?r1 < 3"
    by simp
  have t3: "final_phase_turn ?r3 = 3"
    by simp
  from share_final_reflection_completion [of "ex_store_final 1" 1 ?r1 11 ?p1 "''thanks''"] h1 t1
  obtain s1 where "share_final_reflection (ex_store_final 1) 1 11 ''thanks'' =
                 (Inr \<lparr>next_turn = final_phase_turn ?r1 + 1, is_complete = False\<rparr>, s1)"
    by blast
  then have c1: "fst (share_final_reflection (ex_store_final 1) 1 11 ''thanks'')
       = Inr \<lparr>next_turn = 2, is_complete = False\<rparr>"
    by simp
  from share_final_reflection_completion [of "ex_store_final 3" 1 ?r3 13 ?p3 "''thanks''"] h3 t3
  obtain s3 r' where s3: "share_final_reflection (ex_store_final 3) 1 13 ''thanks'' =
                 (Inr \<lparr>next_turn = 0, is_complete = True\<rparr>, s3)"
      "select_room s3 1 = Some r'"
      "r' = ?r3\<lparr>status := Complete, final_phase_turn := 0, final_phase_step := Sharing\<rparr>"
    by blast
  have c3: "fst (share_final_reflection (ex_store_final 3) 1 13 ''thanks'')
       = Inr \<lparr>next_turn = 0, is_complete = True\<rparr>
   \<and> select_room (snd (share_final_reflection (ex_store_final 3) 1 13 ''thanks'')) 1
       = Some (ex_room\<lparr>status := Complete, final_phase_turn := 0, final_phase_step := Sharing\<rparr>)"
    using s3 by simp
  from h1 h3 c1 c3 show ?thesis by blast
qed

text \<open>
  Claim C8 as it was stated says that for seat 3 \<open>final_phase_turn\<close> is not advanced
  further instead of cycling. The procedure does write the turn for seat 3: a room whose
  \<open>final_phase_turn\<close> is 3 and whose step is reflection has \<open>final_phase_turn\<close> 0 and step
  sharing after the reflection of the player on seat 3, which is the cyclic successor of
  seat 3 and the state in which a round of the final phase starts.
\<close>

theorem share_final_reflection_counterexample:
  "map_option final_phase_turn (select_room (ex_store_final 3) 1) = Some 3
   \<and> map_option final_phase_step (select_room (ex_store_final 3) 1) = Some Reflection
   \<and> map_option player_number (select_player (ex_store_final 3) 13 1) = Some 3
   \<and> fst (share_final_reflection (ex_store_final 3) 1 13 ''thanks'')
       = Inr \<lparr>next_turn = 0, is_complete = True\<rparr>
   \<and> map_option final_phase_turn
        (select_room (snd (share_final_reflection (ex_store_final 3) 1 13 ''thanks'')) 1)
       = Some 0
   \<and> map_option final_phase_step
        (select_room (snd (share_final_reflection (ex_store_final 3) 1 13 ''thanks'')) 1)
       = Some Sharing
   \<and> map_option final_phase_turn
        (select_room (snd (share_final_reflection (ex_store_final 3) 1 13 ''thanks'')) 1)
       \<noteq> map_option final_phase_turn (select_room (ex_store_final 3) 1)"
proof -
  let ?r3 = "ex_room\<lparr>status := Resonance_final, final_phase_turn := 3,
                     final_phase_step := Reflection\<rparr>"
  let ?p3 = "ex_player 13 3 Player [''vir'', ''gra'', ''ser'']"
  let ?f = "\<lambda>x. x\<lparr>status := Complete, final_phase_turn := 0, final_phase_step := Sharing\<rparr>"
  have r: "select_room (ex_store_final 3) 1 = Some ?r3"
    by (simp add: ex_store_final_def ex_defs)
  have p: "select_player (ex_store_final 3) 13 1 = Some ?p3"
    by (simp add: ex_store_final_def ex_defs)
  have res: "share_final_reflection (ex_store_final 3) 1 13 ''thanks'' =
        (Inr \<lparr>next_turn = 0, is_complete = True\<rparr>,
         update_game_rooms
           (update_players (ex_store_final 3) 13 (\<lambda>p. p\<lparr>final_reflection_text := ''thanks''\<rparr>)) 1 ?f)"
    by (rule share_final_reflection_last_seat [OF r _ p]) (simp_all add: ex_player_def)
  have after: "select_room (snd (share_final_reflection (ex_store_final 3) 1 13 ''thanks'')) 1
        = Some (?f ?r3)"
    unfolding res snd_conv using r by (intro room_after_reflection) simp_all
  have pn: "map_option player_number (select_player (ex_store_final 3) 13 1) = Some 3"
    unfolding p by (simp add: ex_player_def)
  show ?thesis
    unfolding after pn unfolding r res by simp
qed

section \<open>Card conservation of the atomic operations\<close>

lemma full_catalog:
  assumes "card_catalog cat" and "length xs = 36" and "distinct xs" and "set cat \<subseteq> set xs"
  shows "set xs = set cat"
proof -
  have "card (set cat) = card (set xs)"
    using assms by (simp add: card_catalog_def distinct_card)
  with assms(4) have "set cat = set xs"
    by (intro card_subset_eq) simp_all
  then show ?thesis by simp
qed

lemma ex_store_cards:
  "room_cards ex_store 1 =
     [''acc'', ''coo'', ''con'', ''dep'', ''pea'', ''gen'', ''hon'',
      ''bel'', ''est'', ''aut'', ''sol'', ''gri'', ''giv'', ''ope'',
      ''chg'', ''hop'', ''ten'', ''fle'', ''sim'', ''fun'',
      ''sin'', ''pop'', ''lov'', ''lei'',
      ''cha'', ''bol'', ''adv'', ''pas'', ''gro'', ''dil'',
      ''res'', ''ach'', ''sel'', ''vir'', ''gra'', ''ser'']"
  by (simp add: room_cards_def ex_store_def ex_room_def ex_players_def ex_player_def
      gift_cards_def)

lemma ex_store_conserved: "conserved ex_catalog ex_store 1"
proof -
  have c: "card_catalog ex_catalog"
    using ex_catalog_ok by (simp add: card_catalog_def)
  have l: "length (room_cards ex_store 1) = 36" "distinct (room_cards ex_store 1)"
    unfolding ex_store_cards by simp_all
  have "set ex_catalog \<subseteq> set (room_cards ex_store 1)"
    unfolding ex_store_cards ex_catalog_def by simp
  with c l have "set (room_cards ex_store 1) = set ex_catalog"
    by (intro full_catalog)
  with c l show ?thesis by (simp add: conserved_def)
qed

text \<open>
  Claim C1. Starting from a state in which every one of the 36 catalogue names occurs
  exactly once among the deck, the discard pile, the hands of the active players and the
  gift card references of a room, every invocation of draw, discard or exchange, by any
  row of \<open>players\<close> and with any arguments, keeps this property: the collection is the
  same multiset, it still has size 36, no name occurs twice and none is missing. Every
  guard of the three procedures returns before the first write, and the first write,
  \<open>UPDATE players SET hand = v_new_hand, updated_at = now()\<close>, raises for the missing
  column and is rolled back (\<open>run_op_store\<close>), so no invocation moves a card.
\<close>

theorem card_conservation:
  "conserved cat s rm \<longrightarrow>
     conserved cat (run_op s opn) rm
     \<and> mset (room_cards (run_op s opn) rm) = mset (room_cards s rm)
     \<and> length (room_cards (run_op s opn) rm) = 36
     \<and> distinct (room_cards (run_op s opn) rm)
     \<and> set (room_cards (run_op s opn) rm) = set cat"
proof
  assume a: "conserved cat s rm"
  have u: "run_op s opn = s"
    by (rule run_op_store)
  from a show "conserved cat (run_op s opn) rm
     \<and> mset (room_cards (run_op s opn) rm) = mset (room_cards s rm)
     \<and> length (room_cards (run_op s opn) rm) = 36
     \<and> distinct (room_cards (run_op s opn) rm)
     \<and> set (room_cards (run_op s opn) rm) = set cat"
    unfolding u by (simp add: conserved_def)
qed

theorem card_conservation_witness:
  "conserved ex_catalog ex_store 1
   \<and> conserved ex_catalog (run_op ex_store (Draw 1 14)) 1
   \<and> conserved ex_catalog (run_op ex_store (Discard 1 13 ''vir'')) 1
   \<and> conserved ex_catalog (run_op ex_store (ExchangeCards 1 11 ''gro'' ''lov'')) 1
   \<and> length (room_cards (run_op ex_store (Draw 1 14)) 1) = 36"
proof -
  from card_conservation [of ex_catalog ex_store 1 "Draw 1 14"] ex_store_conserved
  have 1: "conserved ex_catalog (run_op ex_store (Draw 1 14)) 1
           \<and> length (room_cards (run_op ex_store (Draw 1 14)) 1) = 36"
    by blast
  from card_conservation [of ex_catalog ex_store 1 "Discard 1 13 ''vir''"] ex_store_conserved
  have 2: "conserved ex_catalog (run_op ex_store (Discard 1 13 ''vir'')) 1"
    by blast
  from card_conservation [of ex_catalog ex_store 1 "ExchangeCards 1 11 ''gro'' ''lov''"]
       ex_store_conserved
  have 3: "conserved ex_catalog (run_op ex_store (ExchangeCards 1 11 ''gro'' ''lov'')) 1"
    by blast
  from ex_store_conserved 1 2 3 show ?thesis by blast
qed

section \<open>Vote tally\<close>

lemma map_of_set_key:
  "map_of (map (\<lambda>(k, c). if k = a then (k, f) else (k, c)) xs) k
   = (if k = a then (if a \<in> fst ` set xs then Some f else None) else map_of xs k)"
  by (induction xs) (auto split: if_splits)

lemma keys_set_key:
  "map fst (map (\<lambda>(k, c). if k = a then (k, f) else (k, c)) xs) = map fst xs"
  by (induction xs) auto

lemma keys_set_key_comp [simp]:
  "map (fst \<circ> (\<lambda>(k, c). if k = a then (k, f) else (k, c))) xs = map fst xs"
  by (induction xs) auto

lemma count_of_add_vote:
  "count_of (add_vote vc v) k = count_of vc k + (if card_index v = k then 1 else 0)"
proof (cases "map_of vc (card_index v)")
  case None
  then show ?thesis
    by (auto simp: add_vote_def count_of_def map_add_def split: option.splits)
next
  case (Some n)
  then have "card_index v \<in> fst ` set vc"
    by (force dest: map_of_SomeD)
  with Some show ?thesis
    by (auto simp: add_vote_def count_of_def map_of_set_key split: option.splits)
qed

lemma keys_add_vote:
  "set (map fst (add_vote vc v)) = insert (card_index v) (set (map fst vc))"
proof (cases "map_of vc (card_index v)")
  case None
  then show ?thesis by (auto simp: add_vote_def)
next
  case (Some n)
  then have "card_index v \<in> fst ` set vc"
    by (force dest: map_of_SomeD)
  with Some show ?thesis
    by (auto simp: add_vote_def)
qed

lemma distinct_add_vote:
  "distinct (map fst vc) \<Longrightarrow> distinct (map fst (add_vote vc v))"
proof (cases "map_of vc (card_index v)")
  case None
  assume d: "distinct (map fst vc)"
  from None have "card_index v \<notin> fst ` set vc"
    by (simp add: map_of_eq_None_iff)
  with d show ?thesis
    by (simp add: add_vote_def None)
next
  case (Some n)
  assume "distinct (map fst vc)"
  with Some show ?thesis
    by (simp add: add_vote_def keys_set_key)
qed

lemma count_of_foldl:
  "count_of (foldl add_vote vc vs) k = count_of vc k + votes_for vs k"
  by (induction vs arbitrary: vc) (simp_all add: votes_for_def count_of_add_vote)

lemma keys_foldl:
  "set (map fst (foldl add_vote vc vs)) = set (map fst vc) \<union> card_index ` set vs"
  by (induction vs arbitrary: vc) (simp_all add: keys_add_vote del: set_map)

lemma distinct_foldl:
  "distinct (map fst vc) \<Longrightarrow> distinct (map fst (foldl add_vote vc vs))"
  by (induction vs arbitrary: vc) (simp_all add: distinct_add_vote)

lemma winner_fold:
  assumes "sorted (map fst ((w, m) # es))" and "distinct (map fst ((w, m) # es))"
  shows "\<exists>w' m'. foldl consider_entry (m, Some w) es = (m', Some w')
           \<and> (w', m') \<in> set ((w, m) # es)
           \<and> (\<forall>(k, c) \<in> set ((w, m) # es). c \<le> m' \<and> (c = m' \<longrightarrow> w' \<le> k))"
  using assms
proof (induction es arbitrary: w m)
  case Nil
  then show ?case by simp
next
  case (Cons e es)
  obtain k c where e: "e = (k, c)" by (cases e)
  from Cons.prems have wk: "w < k"
    by (auto simp: e)
  from Cons.prems have rest_k: "sorted (map fst ((k, c) # es))" "distinct (map fst ((k, c) # es))"
    by (auto simp: e)
  from Cons.prems have rest_w: "sorted (map fst ((w, m) # es))" "distinct (map fst ((w, m) # es))"
    by (auto simp: e)
  show ?case
  proof (cases "c > m")
    case True
    then have step: "foldl consider_entry (m, Some w) (e # es)
                     = foldl consider_entry (c, Some k) es"
      by (simp add: e)
    from Cons.IH [OF rest_k] obtain w' m' where r:
      "foldl consider_entry (c, Some k) es = (m', Some w')"
      "(w', m') \<in> set ((k, c) # es)"
      "\<forall>(k', c') \<in> set ((k, c) # es). c' \<le> m' \<and> (c' = m' \<longrightarrow> w' \<le> k')"
      by blast
    from r(3) have "c \<le> m'" by auto
    with True have "m < m'" by simp
    with r show ?thesis
      unfolding step by (intro exI [of _ w'] exI [of _ m']) (auto simp: e)
  next
    case False
    with wk have step: "foldl consider_entry (m, Some w) (e # es)
                        = foldl consider_entry (m, Some w) es"
      by (simp add: e)
    from Cons.IH [OF rest_w] obtain w' m' where r:
      "foldl consider_entry (m, Some w) es = (m', Some w')"
      "(w', m') \<in> set ((w, m) # es)"
      "\<forall>(k', c') \<in> set ((w, m) # es). c' \<le> m' \<and> (c' = m' \<longrightarrow> w' \<le> k')"
      by blast
    from r(3) have mm: "m \<le> m'" "m = m' \<longrightarrow> w' \<le> w" by auto
    with False wk have "c \<le> m' \<and> (c = m' \<longrightarrow> w' \<le> k)" by auto
    with r show ?thesis
      unfolding step by (intro exI [of _ w'] exI [of _ m']) (auto simp: e)
  qed
qed

lemma winner_fold_start:
  assumes "es \<noteq> []" and "sorted (map fst es)" and "distinct (map fst es)"
  shows "\<exists>w' m'. foldl consider_entry (0, None) es = (m', Some w')
           \<and> (w', m') \<in> set es
           \<and> (\<forall>(k, c) \<in> set es. c \<le> m' \<and> (c = m' \<longrightarrow> w' \<le> k))"
proof -
  from assms(1) obtain k c rest where es: "es = (k, c) # rest"
    by (cases es) auto
  have "foldl consider_entry (0, None) es = foldl consider_entry (c, Some k) rest"
    by (simp add: es)
  moreover from winner_fold [of k c rest] assms(2,3)
  have "\<exists>w' m'. foldl consider_entry (c, Some k) rest = (m', Some w')
           \<and> (w', m') \<in> set ((k, c) # rest)
           \<and> (\<forall>(k', c') \<in> set ((k, c) # rest). c' \<le> m' \<and> (c' = m' \<longrightarrow> w' \<le> k'))"
    unfolding es by blast
  ultimately show ?thesis
    unfolding es by simp
qed

lemma Object_entries_index_keys:
  assumes "\<forall>k \<in> set (map fst obj). array_index_key k"
  shows "Object_entries obj = sort_key fst obj"
proof -
  have "filter (\<lambda>(k, c). array_index_key k) obj = obj"
    using assms by (intro filter_True) auto
  moreover have "filter (\<lambda>(k, c). \<not> array_index_key k) obj = []"
    using assms by (auto simp: filter_empty_conv)
  ultimately show ?thesis
    by (simp add: Object_entries_def)
qed

lemma count_of_entry:
  "distinct (map fst vc) \<Longrightarrow> (k, c) \<in> set vc \<Longrightarrow> count_of vc k = c"
  by (simp add: count_of_def)

lemma votes_for_pos_iff: "0 < votes_for vs i \<longleftrightarrow> i \<in> card_index ` set vs"
  by (auto simp: votes_for_def filter_empty_conv)

lemma votes_for_count: "votes_for vs i = count (mset (map card_index vs)) i"
  by (induction vs) (auto simp: votes_for_def)

lemma entry_of_key:
  assumes "distinct (map fst vc)" and "k \<in> fst ` set vc"
  shows "(k, count_of vc k) \<in> set vc"
proof -
  from assms(2) obtain c where c: "(k, c) \<in> set vc" by auto
  with assms(1) have "count_of vc k = c" by (rule count_of_entry)
  with c show ?thesis by simp
qed

lemma tally_plurality:
  assumes range: "\<forall>v \<in> set vs. 0 \<le> card_index v \<and> card_index v < int n"
    and n: "0 < n" "n \<le> 4294967295"
  shows "0 \<le> winningCardIndex vs n \<and> winningCardIndex vs n < int n
         \<and> (\<forall>i. votes_for vs i \<le> votes_for vs (winningCardIndex vs n))
         \<and> (\<forall>i. 0 \<le> i \<and> votes_for vs i = votes_for vs (winningCardIndex vs n)
                \<longrightarrow> winningCardIndex vs n \<le> i)"
proof (cases "vs = []")
  case True
  then have "winningCardIndex vs n = 0"
    using n by (simp add: winningCardIndex_def Object_entries_def)
  with True n show ?thesis by (simp add: votes_for_def)
next
  case False
  let ?vc = "foldl add_vote [] vs"
  let ?es = "Object_entries ?vc"
  have keys: "fst ` set ?vc = card_index ` set vs"
    using keys_foldl [of "[]" vs] by simp
  have dist: "distinct (map fst ?vc)"
    by (rule distinct_foldl) simp
  have cnt: "count_of ?vc k = votes_for vs k" for k
    using count_of_foldl [of "[]" vs k] by (simp add: count_of_def)
  have "\<forall>k \<in> set (map fst ?vc). array_index_key k"
    using range n keys by (auto simp: array_index_key_def)
  then have es: "?es = sort_key fst ?vc"
    by (rule Object_entries_index_keys)
  have set_es: "set ?es = set ?vc"
    unfolding es by simp
  have "?vc \<noteq> []"
    using keys False by auto
  then have ne: "?es \<noteq> []"
    using set_es by (metis set_empty)
  have sorted_es: "sorted (map fst ?es)"
    unfolding es by (rule sorted_sort_key)
  have "mset (map fst ?es) = mset (map fst ?vc)"
    unfolding es by simp
  with dist have dist_es: "distinct (map fst ?es)"
    by (metis mset_eq_imp_distinct_iff)
  from winner_fold_start [OF ne sorted_es dist_es] obtain w' m' where r:
    "foldl consider_entry (0, None) ?es = (m', Some w')"
    "(w', m') \<in> set ?es"
    "\<forall>(k, c) \<in> set ?es. c \<le> m' \<and> (c = m' \<longrightarrow> w' \<le> k)"
    by blast
  from r(2) have in_vc: "(w', m') \<in> set ?vc"
    using set_es by simp
  then have "w' \<in> card_index ` set vs"
    using keys by force
  with range have w_range: "0 \<le> w'" "w' < int n"
    by auto
  have m': "m' = votes_for vs w'"
    using count_of_entry [OF dist in_vc] cnt by simp
  have w: "winningCardIndex vs n = w'"
    unfolding winningCardIndex_def Let_def using ne r(1) w_range by simp
  have max: "votes_for vs i \<le> votes_for vs w'" for i
  proof (cases "i \<in> card_index ` set vs")
    case True
    then have "(i, count_of ?vc i) \<in> set ?es"
      using entry_of_key [OF dist, of i] keys set_es by simp
    with r(3) have "count_of ?vc i \<le> m'" by auto
    then show ?thesis by (simp add: cnt m')
  next
    case False
    then have "votes_for vs i = 0"
      using votes_for_pos_iff [of vs i] by simp
    then show ?thesis by simp
  qed
  have tie: "w' \<le> i" if "votes_for vs i = votes_for vs w'" for i
  proof -
    have "0 < votes_for vs w'"
      using \<open>w' \<in> card_index ` set vs\<close> by (simp add: votes_for_pos_iff)
    with that have "i \<in> card_index ` set vs"
      by (simp add: votes_for_pos_iff [symmetric])
    then have "(i, count_of ?vc i) \<in> set ?es"
      using entry_of_key [OF dist, of i] keys set_es by simp
    with r(3) have "count_of ?vc i = m' \<longrightarrow> w' \<le> i" by auto
    with that show ?thesis by (simp add: cnt m')
  qed
  show ?thesis
    unfolding w using w_range max tie by blast
qed

lemma three_options_range:
  assumes "set (map card_index vs) = {0, 1, 2}"
  shows "\<forall>x \<in> set vs. 0 \<le> card_index x \<and> card_index x < int 3"
proof
  fix x assume "x \<in> set vs"
  then have "card_index x \<in> set (map card_index vs)" by simp
  then have "card_index x \<in> {0, 1, 2}" unfolding assms .
  then show "0 \<le> card_index x \<and> card_index x < int 3" by auto
qed

text \<open>
  Claim C7. Voting resolution is plurality with the lowest index winning ties: for votes
  cast for the card options, the tally returns a card index with the most votes, and the
  lowest among the indices with that many votes. In particular votes 0, 0, 1, 2 (in any
  order) resolve to index 0, and so do votes 0, 1, 2. When all active players have voted
  (and no decision has been attempted yet) the decision is taken at once, whatever the
  countdown shows.
\<close>

theorem voting_resolution_plurality_lowest_index:
  "((\<forall>x \<in> set vs. 0 \<le> card_index x \<and> card_index x < int n) \<and> 0 < n \<and> n \<le> 4294967295 \<longrightarrow>
      0 \<le> winningCardIndex vs n \<and> winningCardIndex vs n < int n
      \<and> (\<forall>i. votes_for vs i \<le> votes_for vs (winningCardIndex vs n))
      \<and> (\<forall>i. 0 \<le> i \<and> votes_for vs i = votes_for vs (winningCardIndex vs n)
             \<longrightarrow> winningCardIndex vs n \<le> i))
   \<and> (mset (map card_index vs) = {#0, 0, 1, 2#} \<longrightarrow> winningCardIndex vs 3 = 0)
   \<and> (mset (map card_index vs) = {#0, 1, 2#} \<longrightarrow> winningCardIndex vs 3 = 0)
   \<and> (allVoted v \<and> \<not> decisionAttempted v \<longrightarrow> decides_now v)"
proof -
  have p1: "(\<forall>x \<in> set vs. 0 \<le> card_index x \<and> card_index x < int n) \<and> 0 < n \<and> n \<le> 4294967295
    \<longrightarrow> 0 \<le> winningCardIndex vs n \<and> winningCardIndex vs n < int n
      \<and> (\<forall>i. votes_for vs i \<le> votes_for vs (winningCardIndex vs n))
      \<and> (\<forall>i. 0 \<le> i \<and> votes_for vs i = votes_for vs (winningCardIndex vs n)
             \<longrightarrow> winningCardIndex vs n \<le> i)"
    using tally_plurality [of vs n] by blast
  have p2: "winningCardIndex vs 3 = 0" if m: "mset (map card_index vs) = {#0, 0, 1, 2#}"
  proof -
  from m have "set (map card_index vs) = {0, 1, 2}"
    by (metis mset_eq_setD set_mset_mset set_mset_add_mset_insert set_mset_empty insert_absorb2)
  then have range: "\<forall>x \<in> set vs. 0 \<le> card_index x \<and> card_index x < int 3"
    by (rule three_options_range)
  let ?w = "winningCardIndex vs 3"
  have c: "votes_for vs 0 = 2" "votes_for vs 1 = 1" "votes_for vs 2 = 1"
    unfolding votes_for_count m by simp_all
  from tally_plurality [OF range] have w: "0 \<le> ?w" "?w < 3" "votes_for vs 0 \<le> votes_for vs ?w"
    by simp_all
  from w(1,2) consider "?w = 0" | "?w = 1" | "?w = 2" by linarith
  then show "?w = 0"
  proof cases
    case 1 then show ?thesis .
  next
    case 2 with w(3) show ?thesis by (simp add: c)
  next
    case 3 with w(3) show ?thesis by (simp add: c)
  qed
  qed
  have p3: "winningCardIndex vs 3 = 0" if m: "mset (map card_index vs) = {#0, 1, 2#}"
  proof -
  from m have "set (map card_index vs) = {0, 1, 2}"
    by (metis mset_eq_setD set_mset_mset set_mset_add_mset_insert set_mset_empty)
  then have range: "\<forall>x \<in> set vs. 0 \<le> card_index x \<and> card_index x < int 3"
    by (rule three_options_range)
  let ?w = "winningCardIndex vs 3"
  have c: "votes_for vs 0 = 1" "votes_for vs 1 = 1" "votes_for vs 2 = 1"
    unfolding votes_for_count m by simp_all
  from tally_plurality [OF range]
  have w: "0 \<le> ?w" "?w < 3" "votes_for vs 0 = votes_for vs ?w \<longrightarrow> ?w \<le> 0"
    by simp_all
  from w(1,2) consider "?w = 0" | "?w = 1" | "?w = 2" by linarith
  then show "?w = 0"
  proof cases
    case 1 then show ?thesis .
  next
    case 2 with w(3) show ?thesis by (simp add: c)
  next
    case 3 with w(3) show ?thesis by (simp add: c)
  qed
  qed
  have p4: "allVoted v \<and> \<not> decisionAttempted v \<longrightarrow> decides_now v"
    by (auto simp: decides_now_def unanimous_effect_def all_voted_effect_def)
  from p1 p2 p3 p4 show ?thesis by blast
qed

theorem voting_resolution_witness:
  "list_all (\<lambda>x. 0 \<le> card_index x \<and> card_index x < int 3) ex_votes
   \<and> (0::nat) < 3 \<and> (3::nat) \<le> 4294967295
   \<and> mset (map card_index ex_votes) = {#0, 0, 1, 2#}
   \<and> allVoted ex_view \<and> \<not> decisionAttempted ex_view \<and> timeLeft ex_view = Some 170
   \<and> winningCardIndex ex_votes 3 = 0
   \<and> votes_for ex_votes 1 \<le> votes_for ex_votes (winningCardIndex ex_votes 3)
   \<and> decides_now ex_view"
proof -
  have l: "list_all (\<lambda>x. 0 \<le> card_index x \<and> card_index x < int 3) ex_votes"
    by (simp add: ex_votes_def)
  then have h: "(\<forall>x \<in> set ex_votes. 0 \<le> card_index x \<and> card_index x < int 3)
     \<and> (0::nat) < 3 \<and> (3::nat) \<le> 4294967295"
    by (simp add: list_all_iff)
  have m: "mset (map card_index ex_votes) = {#0, 0, 1, 2#}"
    by (simp add: ex_votes_def)
  have v: "allVoted ex_view \<and> \<not> decisionAttempted ex_view \<and> timeLeft ex_view = Some 170"
    by (simp add: allVoted_def ex_view_def ex_votes_def)
  from voting_resolution_plurality_lowest_index [of ex_votes 3 ex_view] h m v
  have "winningCardIndex ex_votes 3 = 0
     \<and> votes_for ex_votes 1 \<le> votes_for ex_votes (winningCardIndex ex_votes 3)
     \<and> decides_now ex_view"
    by blast
  moreover have "(0::nat) < 3 \<and> (3::nat) \<le> 4294967295"
    by simp
  ultimately show ?thesis using l m v by blast
qed

section \<open>The uniqueness check\<close>

text \<open>
  Claim C6. The claim says that \<open>validate_card_uniqueness\<close> scans the deck, the discard
  pile, the active players' hands and the gift card references, and reports every name
  that occurs more than once. The procedure collects the discard pile and the active
  players' hands only. Evaluated on a room in which card \<open>cha\<close> is both in the deck and
  in the hand of an active player, it reports \<open>valid = true\<close> with no duplicates and a
  total of 16 cards.
\<close>

theorem validate_card_uniqueness_misses_deck_duplicate:
  "select_room ex_store_deck_dup 1 = Some (ex_room\<lparr>deck := [''cha'', ''acc'', ''coo'']\<rparr>)
   \<and> ''cha'' \<in> set (deck (ex_room\<lparr>deck := [''cha'', ''acc'', ''coo'']\<rparr>))
   \<and> select_player ex_store_deck_dup 10 1 = Some (ex_player 10 0 Player [''cha'', ''bol'', ''adv''])
   \<and> count_list (room_cards ex_store_deck_dup 1) ''cha'' = 2
   \<and> validate_card_uniqueness ex_store_deck_dup 1 = AllUnique (Some 16)
   \<and> valid (validate_card_uniqueness ex_store_deck_dup 1)
   \<and> duplicates (validate_card_uniqueness ex_store_deck_dup 1) = []"
proof -
  have r: "select_room ex_store_deck_dup 1 = Some (ex_room\<lparr>deck := [''cha'', ''acc'', ''coo'']\<rparr>)"
    by (simp add: ex_store_deck_dup_def select_room_def ex_room_def)
  have p: "select_player ex_store_deck_dup 10 1 = Some (ex_player 10 0 Player [''cha'', ''bol'', ''adv''])"
    by (simp add: ex_store_deck_dup_def select_player_def ex_players_def ex_player_def)
  have cards: "collected_cards ex_store_deck_dup (ex_room\<lparr>deck := [''cha'', ''acc'', ''coo'']\<rparr>)
     = [''sin'', ''pop'', ''lov'', ''lei'', ''cha'', ''bol'', ''adv'', ''pas'', ''gro'', ''dil'',
        ''res'', ''ach'', ''sel'', ''vir'', ''gra'', ''ser'']"
    by (simp add: collected_cards_def ex_store_deck_dup_def ex_room_def ex_players_def ex_player_def)
  have counts: "foldl count_card []
      [''sin'', ''pop'', ''lov'', ''lei'', ''cha'', ''bol'', ''adv'', ''pas'', ''gro'', ''dil'',
       ''res'', ''ach'', ''sel'', ''vir'', ''gra'', ''ser'']
     = map (\<lambda>c. (c, 1))
      [''ach'', ''adv'', ''bol'', ''cha'', ''dil'', ''gra'', ''gro'', ''lei'', ''lov'', ''pas'',
       ''pop'', ''res'', ''sel'', ''ser'', ''sin'', ''vir'']"
    by (simp add: count_card_def jsonb_key_less_def)
  have v: "validate_card_uniqueness ex_store_deck_dup 1 = AllUnique (Some 16)"
    unfolding validate_card_uniqueness_def r option.case Let_def cards counts by simp
  have c: "count_list (room_cards ex_store_deck_dup 1) ''cha'' = 2"
    by (simp add: room_cards_def ex_store_deck_dup_def ex_room_def ex_players_def ex_player_def
        gift_cards_def)
  from r p v c show ?thesis by simp
qed

section \<open>Phase transitions written by the clients\<close>

text \<open>
  Claim C5. The claim says that every phase-transition write is conditioned on the
  expected prior status and is a no-op otherwise, in particular the transition from
  \<open>resonance_initial\<close> to \<open>playing\<close> and the one from \<open>exchange\<close> to \<open>playing\<close>.
  Evaluated on a room that has already moved on to \<open>resonance_final\<close>, both writes set
  the status back to \<open>playing\<close> (the second also resets \<open>current_exchange_turn\<close>),
  whereas the guarded transition of VotingResult.tsx leaves that room untouched.
\<close>

theorem phase_transition_overwrites_status:
  "map_option status (select_room ex_store_moved_on 1) = Some Resonance_final
   \<and> map_option exchange_completed (select_room ex_store_moved_on 1) = Some True
   \<and> map_option status (select_room (exchange_phase_end ex_store_moved_on 1) 1) = Some Playing
   \<and> map_option current_exchange_turn (select_room (exchange_phase_end ex_store_moved_on 1) 1)
       = Some 0
   \<and> map_option status (select_room (handleNextPhase Initial ex_store_moved_on 1 10) 1)
       = Some Playing
   \<and> transitionToResonance ex_store_moved_on 1 = ex_store_moved_on"
proof -
  have r: "select_room ex_store_moved_on 1
           = Some (ex_room\<lparr>status := Resonance_final, round_number := 5,
                            exchange_completed := True\<rparr>)"
    by (simp add: ex_store_moved_on_def select_room_def ex_room_def)
  have e: "select_room (exchange_phase_end ex_store_moved_on 1) 1
           = Some (ex_room\<lparr>status := Playing, round_number := 5, exchange_completed := True,
                            current_exchange_turn := 0\<rparr>)"
    by (simp add: exchange_phase_end_def update_game_rooms_def ex_store_moved_on_def
        select_room_def ex_room_def)
  have n: "select_room (handleNextPhase Initial ex_store_moved_on 1 10) 1
           = Some (ex_room\<lparr>status := Playing, round_number := 5, exchange_completed := True\<rparr>)"
    by (simp add: handleNextPhase_def Let_def update_players_def update_room_players_def
        update_game_rooms_def ex_store_moved_on_def select_room_def ex_room_def ex_players_def
        ex_player_def)
  have t: "transitionToResonance ex_store_moved_on 1 = ex_store_moved_on"
    unfolding transitionToResonance_def r by simp
  from r e n t show ?thesis by simp
qed

end
